theory Spec2Isabelle
  imports Main
begin

section \<open>JavaScript values reaching the query builder\<close>

text \<open>
  \<^verbatim>\<open>buildQuery\<close> of \<^verbatim>\<open>packages/orm/src/QueryBuilder.ts\<close> inspects its filter at run time
  (\<^verbatim>\<open>typeof\<close>, \<^verbatim>\<open>Array.isArray\<close>, \<^verbatim>\<open>Object.keys\<close>, truthiness), so the filter is
  modelled as a JavaScript value. Numbers are integers (no NaN, no fractions). An object
  is the list of its own enumerable string-keyed properties in the order
  \<^verbatim>\<open>Object.keys\<close> enumerates them. An entity (what \<^verbatim>\<open>isEntity\<close> of EntityManager accepts)
  carries the value of its \<^verbatim>\<open>id\<close> accessor (\<open>None\<close> is \<^verbatim>\<open>undefined\<close>) and its own
  properties. Properties inherited from \<^verbatim>\<open>Object.prototype\<close> (\<^verbatim>\<open>constructor\<close>,
  \<^verbatim>\<open>toString\<close>, ...) are modelled where the source looks an operator up in its
  table \<^verbatim>\<open>opToFn\<close>; elsewhere they are outside the model: field names and table
  abbreviations are taken not to be such names.
\<close>

datatype jsval =
    JUndefined
  | JNull
  | JBool bool
  | JNum int
  | JStr string
  | JArr "jsval list"
  | JObj "(string \<times> jsval) list"
  | JEntity "string option" "(string \<times> jsval) list"

datatype error =
    NotFound string           \<comment> \<open>\<^verbatim>\<open>fail(`${key} not found`)\<close>\<close>
  | NotImplemented            \<comment> \<open>\<^verbatim>\<open>throw new Error("Not implemented")\<close>\<close>
  | OnlyNeSupported           \<comment> \<open>\<^verbatim>\<open>"Only ne is supported when the value is undefined or null"\<close>\<close>
  | InvalidOperator jsval     \<comment> \<open>\<^verbatim>\<open>fail(`Invalid operator ${op}`)\<close>\<close>
  | TypeError                 \<comment> \<open>raised by the JavaScript runtime itself\<close>

fun truthy :: "jsval \<Rightarrow> bool" where
  "truthy JUndefined = False"
| "truthy JNull = False"
| "truthy (JBool b) = b"
| "truthy (JNum n) = (n \<noteq> 0)"
| "truthy (JStr s) = (s \<noteq> [])"
| "truthy (JArr xs) = True"
| "truthy (JObj kvs) = True"
| "truthy (JEntity i kvs) = True"

fun isEntity :: "jsval \<Rightarrow> bool" where
  "isEntity (JEntity i kvs) = True"
| "isEntity v = False"

fun isArray :: "jsval \<Rightarrow> bool" where
  "isArray (JArr xs) = True"
| "isArray v = False"

fun isString :: "jsval \<Rightarrow> bool" where
  "isString (JStr s) = True"
| "isString v = False"

text \<open>\<^verbatim>\<open>typeof v === "object"\<close>, which holds of \<^verbatim>\<open>null\<close> too.\<close>

fun typeofObject :: "jsval \<Rightarrow> bool" where
  "typeofObject JNull = True"
| "typeofObject (JArr xs) = True"
| "typeofObject (JObj kvs) = True"
| "typeofObject (JEntity i kvs) = True"
| "typeofObject v = False"

fun nullish :: "jsval \<Rightarrow> bool" where
  "nullish JUndefined = True"
| "nullish JNull = True"
| "nullish v = False"

subsection \<open>Numbers as decimal strings\<close>

definition digit :: "nat \<Rightarrow> char" where
  "digit d = ''0123456789'' ! d"

function showNat :: "nat \<Rightarrow> string" where
  "showNat n = (if n < 10 then [digit n] else showNat (n div 10) @ [digit (n mod 10)])"
  by pat_completeness auto
termination
  by (relation "measure id") auto

declare showNat.simps [simp del]

subsection \<open>Property access\<close>

text \<open>The index keys \<^verbatim>\<open>"0"\<close>, \<^verbatim>\<open>"1"\<close>, ... of an array or a string of the given length.\<close>

definition indexKeys :: "nat \<Rightarrow> string list" where
  "indexKeys n = map showNat [0..<n]"

definition indexOfKey :: "nat \<Rightarrow> string \<Rightarrow> nat option" where
  "indexOfKey n key = List.find (\<lambda>i. showNat i = key) [0..<n]"

text \<open>\<^verbatim>\<open>Object.keys(v)\<close> for a value that is neither \<^verbatim>\<open>null\<close> nor \<^verbatim>\<open>undefined\<close> (the source
  only calls it behind a truthiness or null check).\<close>

fun objectKeys :: "jsval \<Rightarrow> string list" where
  "objectKeys (JObj kvs) = map fst kvs"
| "objectKeys (JEntity i kvs) = map fst kvs"
| "objectKeys (JArr xs) = indexKeys (length xs)"
| "objectKeys (JStr s) = indexKeys (length s)"
| "objectKeys v = []"

text \<open>\<^verbatim>\<open>v[key]\<close> for a value that is neither \<^verbatim>\<open>null\<close> nor \<^verbatim>\<open>undefined\<close>.\<close>

definition lookupProp :: "(string \<times> jsval) list \<Rightarrow> string \<Rightarrow> jsval" where
  "lookupProp kvs key = (case map_of kvs key of None \<Rightarrow> JUndefined | Some v \<Rightarrow> v)"

fun getProp :: "jsval \<Rightarrow> string \<Rightarrow> jsval" where
  "getProp (JObj kvs) key = lookupProp kvs key"
| "getProp (JEntity i kvs) key =
     (if key = ''id'' then (case i of None \<Rightarrow> JUndefined | Some s \<Rightarrow> JStr s)
      else lookupProp kvs key)"
| "getProp (JArr xs) key =
     (if key = ''length'' then JNum (int (length xs))
      else (case indexOfKey (length xs) key of None \<Rightarrow> JUndefined | Some i \<Rightarrow> xs ! i))"
| "getProp (JStr s) key =
     (if key = ''length'' then JNum (int (length s))
      else (case indexOfKey (length s) key of None \<Rightarrow> JUndefined | Some i \<Rightarrow> JStr [s ! i]))"
| "getProp v key = JUndefined"

text \<open>\<^verbatim>\<open>key in v\<close>: a \<^verbatim>\<open>TypeError\<close> when \<open>v\<close> is not an object.\<close>

fun hasProp :: "string \<Rightarrow> jsval \<Rightarrow> error + bool" where
  "hasProp key (JObj kvs) = Inr (key \<in> set (map fst kvs))"
| "hasProp key (JEntity i kvs) = Inr (key = ''id'' \<or> key \<in> set (map fst kvs))"
| "hasProp key (JArr xs) = Inr (key = ''length'' \<or> indexOfKey (length xs) key \<noteq> None)"
| "hasProp key v = Inl TypeError"


text \<open>The string a value becomes when it is used as a property key (\<^verbatim>\<open>opToFn[op]\<close>).
  An array joins its elements with commas, \<^verbatim>\<open>null\<close> and \<^verbatim>\<open>undefined\<close> elements as the
  empty string; an object without a \<^verbatim>\<open>toString\<close> of its own is \<^verbatim>\<open>[object Object]\<close>.\<close>

fun joinWith :: "string \<Rightarrow> string list \<Rightarrow> string" where
  "joinWith sep [] = []"
| "joinWith sep [w] = w"
| "joinWith sep (w # ws) = w @ sep @ joinWith sep ws"

definition showInt :: "int \<Rightarrow> string" where
  "showInt n = (if n < 0 then ''-'' @ showNat (nat (- n)) else showNat (nat n))"

fun toKey :: "jsval \<Rightarrow> string" where
  "toKey JUndefined = ''undefined''"
| "toKey JNull = ''null''"
| "toKey (JBool b) = (if b then ''true'' else ''false'')"
| "toKey (JNum n) = showInt n"
| "toKey (JStr s) = s"
| "toKey (JArr xs) = joinWith '','' (map (\<lambda>x. if nullish x then [] else toKey x) xs)"
| "toKey (JObj kvs) = ''[object Object]''"
| "toKey (JEntity i kvs) = ''[object Object]''"

section \<open>The schema catalog\<close>

text \<open>
  \<^verbatim>\<open>ColumnMeta\<close>, \<^verbatim>\<open>EntityMetadata\<close> and the serdes are declared in EntityManager and
  serde, which the builder only reads. A serde is either a \<^verbatim>\<open>ForeignKeySerde\<close>, which
  names the entity its \<^verbatim>\<open>otherMeta()\<close> resolves to, or any other serde; both carry
  their \<^verbatim>\<open>mapToDb\<close>. Entity types are named by strings and \<^verbatim>\<open>getMetadata\<close> is a
  parameter, so that a schema may refer to itself.
\<close>

datatype serde =
    PrimitiveSerde (mapToDb: "jsval \<Rightarrow> jsval")
  | ForeignKeySerde (mapToDb: "jsval \<Rightarrow> jsval") (otherMeta: string)

fun isForeignKeySerde :: "serde \<Rightarrow> bool" where
  "isForeignKeySerde (ForeignKeySerde f t) = True"
| "isForeignKeySerde (PrimitiveSerde f) = False"

record column_meta =
  fieldName :: string
  columnName :: string
  serde :: serde

record entity_metadata =
  tableName :: string
  columns :: "column_meta list"

record env =
  getMetadata :: "string \<Rightarrow> entity_metadata"
  entityLimit :: int

section \<open>The knex query builder\<close>

text \<open>
  The knex builder is the log of the calls the compilation makes on it, each with the
  arguments the source passes. \<^verbatim>\<open>orderBy(column)\<close> without a direction is logged with
  direction \<^verbatim>\<open>undefined\<close>; knex orders such a term ascending.
\<close>

text \<open>What \<^verbatim>\<open>opToFn[op]\<close> evaluates to when it is not \<^verbatim>\<open>undefined\<close>: the string of
  an entry of the table, or the member of that name that the table, a plain object,
  inherits from \<^verbatim>\<open>Object.prototype\<close>.\<close>

datatype operatorFn = Comparison string | Inherited string

datatype predicate =
    Where string jsval                \<comment> \<open>\<^verbatim>\<open>where(column, value)\<close>\<close>
  | WhereOp string operatorFn jsval   \<comment> \<open>\<^verbatim>\<open>where(column, fn, value)\<close>\<close>
  | WhereNot string jsval
  | WhereIn string "jsval list"
  | WhereNull string
  | WhereNotNull string

record query =
  selects :: "string list"
  fromTable :: "string list"
  joins :: "(string \<times> string \<times> string) list"
  wheres :: "predicate list"
  orders :: "(string \<times> jsval) list"
  limits :: "int list"
  offsets :: "int list"

definition knexSelect :: "string \<Rightarrow> query" where
  "knexSelect c = \<lparr>selects = [c], fromTable = [], joins = [], wheres = [], orders = [],
     limits = [], offsets = []\<rparr>"

definition fromTbl :: "query \<Rightarrow> string \<Rightarrow> query" where
  "fromTbl q t = q\<lparr>fromTable := fromTable q @ [t]\<rparr>"

definition innerJoin :: "query \<Rightarrow> string \<Rightarrow> string \<Rightarrow> string \<Rightarrow> query" where
  "innerJoin q t c1 c2 = q\<lparr>joins := joins q @ [(t, c1, c2)]\<rparr>"

definition addWhere :: "query \<Rightarrow> predicate \<Rightarrow> query" where
  "addWhere q p = q\<lparr>wheres := wheres q @ [p]\<rparr>"

definition orderBy :: "query \<Rightarrow> string \<Rightarrow> jsval \<Rightarrow> query" where
  "orderBy q c d = q\<lparr>orders := orders q @ [(c, d)]\<rparr>"

definition limit :: "query \<Rightarrow> int \<Rightarrow> query" where
  "limit q n = q\<lparr>limits := limits q @ [n]\<rparr>"

definition offset :: "query \<Rightarrow> int \<Rightarrow> query" where
  "offset q n = q\<lparr>offsets := offsets q @ [n]\<rparr>"

section \<open>Aliases\<close>

text \<open>\<^verbatim>\<open>tableName.split("_")\<close>: one more piece than there are underscores.\<close>

fun splitOn :: "char \<Rightarrow> string \<Rightarrow> string list" where
  "splitOn c [] = [[]]"
| "splitOn c (x # xs) =
     (if x = c then [] # splitOn c xs
      else (case splitOn c xs of [] \<Rightarrow> [[x]] | w # ws \<Rightarrow> (x # w) # ws))"

text \<open>\<^verbatim>\<open>w[0]\<close> of an empty word is \<^verbatim>\<open>undefined\<close>, which \<^verbatim>\<open>join("")\<close> renders as the
  empty string.\<close>

definition abbreviationOf :: "string \<Rightarrow> string" where
  "abbreviationOf name = concat (map (take 1) (splitOn CHR ''_'' name))"

definition getAlias :: "(string \<rightharpoonup> nat) \<Rightarrow> string \<Rightarrow> string \<times> (string \<rightharpoonup> nat)" where
  "getAlias aliases name =
     (let abbrev = abbreviationOf name;
          i = (case aliases abbrev of None \<Rightarrow> 0 | Some i \<Rightarrow> i)
      in (abbrev @ showNat i, aliases(abbrev \<mapsto> i + 1)))"

section \<open>Clauses\<close>

definition columnRef :: "string \<Rightarrow> column_meta \<Rightarrow> string" where
  "columnRef alias column = alias @ ''.'' @ columnName column"

fun arrayElems :: "jsval \<Rightarrow> jsval list" where
  "arrayElems (JArr xs) = xs"
| "arrayElems v = []"

definition addForeignKeyClause ::
  "query \<Rightarrow> string \<Rightarrow> column_meta \<Rightarrow> jsval \<Rightarrow> error + (bool \<times> query)" where
  "addForeignKeyClause q alias column clause =
     (let clauseKeys = (if typeofObject clause \<and> clause \<noteq> JNull then objectKeys clause else []);
          col = columnRef alias column;
          lower = mapToDb (serde column)
      in if isEntity clause \<or> isString clause \<or> isArray clause then
           (if isEntity clause \<and> getProp clause ''id'' = JUndefined then
              Inr (False, addWhere q (Where col (JNum (- 1))))
            else if isArray clause then
              Inr (False, addWhere q (WhereIn col (map lower (arrayElems clause))))
            else Inr (False, addWhere q (Where col (lower clause))))
         else if clause = JNull \<or> clause = JUndefined then
           Inr (False, addWhere q (WhereNull col))
         else if length clauseKeys = 1 \<and> hd clauseKeys = ''id'' then
           (let v = getProp clause ''id''
            in if isArray v then Inr (False, addWhere q (WhereIn col (map lower (arrayElems v))))
               else Inr (False, addWhere q (Where col (lower v))))
         else if length clauseKeys = 1 \<and> hd clauseKeys = ''ne'' then
           (let v = getProp clause ''ne''
            in if v = JNull \<or> v = JUndefined then Inr (False, addWhere q (WhereNotNull col))
               else if isString v then Inr (False, addWhere q (WhereNot col (lower v)))
               else Inl NotImplemented)
         else Inr (clause \<noteq> JUndefined, q))"

definition operators :: "string list" where
  "operators = [''eq'', ''gt'', ''gte'', ''ne'', ''lt'', ''lte'', ''like'', ''ilike'', ''in'']"

definition opToFn :: "(string \<times> string) list" where
  "opToFn = [(''eq'', ''=''), (''gt'', ''>''), (''gte'', ''>=''), (''ne'', ''!=''),
     (''lt'', ''<''), (''lte'', ''<=''), (''like'', ''LIKE''), (''ilike'', ''ILIKE''),
     (''in'', ''...'')]"

text \<open>The names of the members of \<^verbatim>\<open>Object.prototype\<close>. Each of them is truthy (a
  function, or the prototype itself under \<^verbatim>\<open>__proto__\<close>).\<close>

definition objectPrototypeNames :: "string list" where
  "objectPrototypeNames = [''constructor'', ''__defineGetter__'', ''__defineSetter__'',
     ''hasOwnProperty'', ''__lookupGetter__'', ''__lookupSetter__'', ''isPrototypeOf'',
     ''propertyIsEnumerable'', ''toString'', ''valueOf'', ''__proto__'', ''toLocaleString'']"

text \<open>\<^verbatim>\<open>opToFn[key]\<close>: an own entry first, then the prototype; \<open>None\<close> is \<^verbatim>\<open>undefined\<close>.\<close>

definition opToFnGet :: "string \<Rightarrow> operatorFn option" where
  "opToFnGet key =
     (case map_of opToFn key of
        Some fn \<Rightarrow> Some (Comparison fn)
      | None \<Rightarrow> if key \<in> set objectPrototypeNames then Some (Inherited key) else None)"

text \<open>\<^verbatim>\<open>(value as Array<any>).map\<close> is a \<^verbatim>\<open>TypeError\<close> on a value that is not an array.\<close>

definition addPrimitiveOperator ::
  "query \<Rightarrow> string \<Rightarrow> column_meta \<Rightarrow> jsval \<Rightarrow> jsval \<Rightarrow> error + query" where
  "addPrimitiveOperator q alias column op v =
     (let col = columnRef alias column;
          lower = mapToDb (serde column)
      in if v = JNull \<or> v = JUndefined then
           (if op = JStr ''ne'' then Inr (addWhere q (WhereNotNull col))
            else if op = JStr ''eq'' then Inr (addWhere q (WhereNull col))
            else Inl OnlyNeSupported)
         else if op = JStr ''in'' then
           (if isArray v then Inr (addWhere q (WhereIn col (map lower (arrayElems v))))
            else Inl TypeError)
         else (case opToFnGet (toKey op) of
                 None \<Rightarrow> Inl (InvalidOperator op)
               | Some fn \<Rightarrow> Inr (addWhere q (WhereOp col fn (lower v)))))"

definition addPrimitiveClause ::
  "query \<Rightarrow> string \<Rightarrow> column_meta \<Rightarrow> jsval \<Rightarrow> error + query" where
  "addPrimitiveClause q alias column clause =
     (let col = columnRef alias column;
          lower = mapToDb (serde column)
      in if truthy clause \<and> typeofObject clause
            \<and> List.find (\<lambda>op. op \<in> set (objectKeys clause)) operators \<noteq> None then
           (let op = hd (objectKeys clause)
            in addPrimitiveOperator q alias column (JStr op) (getProp clause op))
         else if truthy clause \<and> typeofObject clause \<and> hasProp ''op'' clause = Inr True then
           addPrimitiveOperator q alias column (getProp clause ''op'') (getProp clause ''value'')
         else if isArray clause then
           Inr (addWhere q (WhereIn col (map lower (arrayElems clause))))
         else if clause = JNull then Inr (addWhere q (WhereNull col))
         else if clause = JUndefined then Inr q
         else Inr (addWhere q (Where col (lower clause))))"

section \<open>The recursion over the filter\<close>

record cstate =
  query :: query
  aliases :: "string \<rightharpoonup> nat"

text \<open>A compilation ends with an error, with a state, or not at all (\<open>None\<close>).\<close>

type_synonym outcome = "(error + cstate) option"

text \<open>\<^verbatim>\<open>keys.forEach\<close>: the callback runs on each key in turn; an exception ends the loop.\<close>

fun forEach :: "(string \<Rightarrow> cstate \<Rightarrow> outcome) \<Rightarrow> string list \<Rightarrow> cstate \<Rightarrow> outcome" where
  "forEach f [] st = Some (Inr st)"
| "forEach f (key # keys) st =
     (case f key st of
        None \<Rightarrow> None
      | Some (Inl e) \<Rightarrow> Some (Inl e)
      | Some (Inr st') \<Rightarrow> forEach f keys st')"

text \<open>\<^verbatim>\<open>a && b\<close> on values: the left operand when it is falsy.\<close>

definition andGet :: "jsval \<Rightarrow> string \<Rightarrow> jsval" where
  "andGet v key = (if truthy v then getProp v key else v)"

definition andHas :: "jsval \<Rightarrow> string \<Rightarrow> error + bool" where
  "andHas v key = (if truthy v then hasProp key v else Inr False)"

text \<open>The callback of \<^verbatim>\<open>keys.forEach\<close> in \<^verbatim>\<open>addClauses\<close>; \<open>recur\<close> is \<^verbatim>\<open>addClauses\<close> itself.\<close>

definition addClausesKey ::
  "(entity_metadata \<Rightarrow> string \<Rightarrow> jsval \<Rightarrow> jsval \<Rightarrow> cstate \<Rightarrow> outcome) \<Rightarrow> env \<Rightarrow>
   entity_metadata \<Rightarrow> string \<Rightarrow> jsval \<Rightarrow> jsval \<Rightarrow> string \<Rightarrow> cstate \<Rightarrow> outcome" where
  "addClausesKey recur e meta alias whr ord key st =
     (case List.find (\<lambda>c. fieldName c = key) (columns meta) of
        None \<Rightarrow> Some (Inl (NotFound key))
      | Some column \<Rightarrow>
          (let clause = andGet whr key in
           case andHas whr key of
             Inl err \<Rightarrow> Some (Inl err)
           | Inr hasClause \<Rightarrow>
               (let order = andGet ord key;
                    hasOrder = truthy order
                in if isForeignKeySerde (serde column) then
                     (case (if hasClause then addForeignKeyClause (query st) alias column clause
                            else Inr (False, query st)) of
                        Inl err \<Rightarrow> Some (Inl err)
                      | Inr (whereNeedsJoin, q) \<Rightarrow>
                          if whereNeedsJoin \<or> hasOrder then
                            (let otherMeta = getMetadata e (otherMeta (serde column));
                                 (otherAlias, als) = getAlias (aliases st) (tableName otherMeta);
                                 q' = innerJoin q (tableName otherMeta @ '' AS '' @ otherAlias)
                                        (columnRef alias column) (otherAlias @ ''.id'')
                             in recur otherMeta otherAlias
                                  (if whereNeedsJoin then clause else JUndefined)
                                  (if hasOrder then order else JUndefined)
                                  \<lparr>query = q', aliases = als\<rparr>)
                          else Some (Inr (st\<lparr>query := q\<rparr>)))
                   else
                     (case (if hasClause then addPrimitiveClause (query st) alias column clause
                            else Inr (query st)) of
                        Inl err \<Rightarrow> Some (Inl err)
                      | Inr q \<Rightarrow>
                          Some (Inr (st\<lparr>query := (if hasOrder
                                                    then orderBy q (columnRef alias column) order
                                                    else q)\<rparr>))))))"

definition clauseKeys :: "jsval \<Rightarrow> jsval \<Rightarrow> string list" where
  "clauseKeys whr ord =
     (if truthy whr then objectKeys whr else []) @ (if truthy ord then objectKeys ord else [])"

text \<open>\<^verbatim>\<open>addClauses\<close>. The first argument bounds the depth of the recursion: a filter whose
  nesting does not end (an order-by that is a one-letter string, on a key column named
  \<^verbatim>\<open>0\<close> that refers to its own table) makes the source recurse until the stack is
  exhausted, and the model return \<open>None\<close> at every bound.\<close>

primrec addClauses ::
  "nat \<Rightarrow> env \<Rightarrow> entity_metadata \<Rightarrow> string \<Rightarrow> jsval \<Rightarrow> jsval \<Rightarrow> cstate \<Rightarrow> outcome" where
  "addClauses 0 e meta alias whr ord st = None"
| "addClauses (Suc n) e meta alias whr ord st =
     forEach (addClausesKey (addClauses n e) e meta alias whr ord) (clauseKeys whr ord) st"

section \<open>buildQuery\<close>

record filter_and_settings =
  fWhere :: "(string \<times> jsval) list"
  fOrderBy :: "(string \<times> jsval) list option"
  fLimit :: "int option"
  fOffset :: "int option"

text \<open>\<^verbatim>\<open>limit || entityLimit\<close> and \<^verbatim>\<open>if (offset)\<close>: an absent number and zero are falsy.\<close>

fun truthyNum :: "int option \<Rightarrow> bool" where
  "truthyNum None = False"
| "truthyNum (Some n) = (n \<noteq> 0)"

definition buildQuery :: "nat \<Rightarrow> env \<Rightarrow> string \<Rightarrow> filter_and_settings \<Rightarrow> (error + query) option" where
  "buildQuery n e type flt =
     (let meta = getMetadata e type;
          (alias, als) = getAlias Map.empty (tableName meta);
          q = fromTbl (knexSelect (alias @ ''.*'')) (tableName meta @ '' AS '' @ alias)
      in case addClauses n e meta alias (JObj (fWhere flt))
                (case fOrderBy flt of None \<Rightarrow> JUndefined | Some kvs \<Rightarrow> JObj kvs)
                \<lparr>query = q, aliases = als\<rparr> of
           None \<Rightarrow> None
         | Some (Inl err) \<Rightarrow> Some (Inl err)
         | Some (Inr st) \<Rightarrow>
             (let q1 = orderBy (query st) (alias @ ''.id'') JUndefined;
                  q2 = limit q1 (if truthyNum (fLimit flt) then the (fLimit flt)
                                 else entityLimit e);
                  q3 = (if truthyNum (fOffset flt) then offset q2 (the (fOffset flt)) else q2)
              in Some (Inr q3)))"

section \<open>The scopes of a compilation\<close>

text \<open>
  Each call of \<^verbatim>\<open>addClauses\<close> works on a scope: the metadata of an entity, a where-clause
  and an ordering. The visit of a key of a scope recurses into a child scope when the
  key's column is a foreign key and its clause needs a join or the ordering names the
  key; \<open>childScope\<close> is the scope \<^verbatim>\<open>addClauses\<close> is then called on. Whether a clause needs
  a join is the flag that \<^verbatim>\<open>addForeignKeyClause\<close> returns, which depends on neither the
  query nor the alias. \<open>reaches\<close> relates a scope to the scopes below it.
\<close>

definition fkNeedsJoin :: "column_meta \<Rightarrow> jsval \<Rightarrow> bool" where
  "fkNeedsJoin column clause =
     (case addForeignKeyClause (knexSelect []) [] column clause of
        Inl err \<Rightarrow> False | Inr (b, q) \<Rightarrow> b)"

definition childScope ::
  "env \<Rightarrow> entity_metadata \<Rightarrow> jsval \<Rightarrow> jsval \<Rightarrow> string \<Rightarrow> (entity_metadata \<times> jsval \<times> jsval) option" where
  "childScope e meta whr ord key =
     (case List.find (\<lambda>c. fieldName c = key) (columns meta) of
        None \<Rightarrow> None
      | Some column \<Rightarrow>
          (let clause = andGet whr key;
               order = andGet ord key;
               needs = (andHas whr key = Inr True \<and> fkNeedsJoin column clause)
           in if isForeignKeySerde (serde column) \<and> (needs \<or> truthy order)
              then Some (getMetadata e (otherMeta (serde column)),
                         if needs then clause else JUndefined,
                         if truthy order then order else JUndefined)
              else None))"

inductive reaches :: "env \<Rightarrow> entity_metadata \<times> jsval \<times> jsval \<Rightarrow> entity_metadata \<times> jsval \<times> jsval \<Rightarrow> bool"
  for e :: env where
  here: "reaches e s s"
| down: "key \<in> set (clauseKeys whr ord) \<Longrightarrow> childScope e meta whr ord key = Some c \<Longrightarrow>
         reaches e c s \<Longrightarrow> reaches e (meta, whr, ord) s"

code_pred reaches .

definition rootScope :: "env \<Rightarrow> string \<Rightarrow> filter_and_settings \<Rightarrow> entity_metadata \<times> jsval \<times> jsval" where
  "rootScope e ty flt =
     (getMetadata e ty, JObj (fWhere flt),
      case fOrderBy flt of None \<Rightarrow> JUndefined | Some kvs \<Rightarrow> JObj kvs)"

section \<open>Aliases of a query\<close>

text \<open>The aliases of the joined tables, as they stand in the join conditions
  (\<^verbatim>\<open>`${otherAlias}.id`\<close>). An abbreviation is unambiguous as the front of an alias when
  it does not end in a digit. \<open>wellAliased\<close> is the invariant of the recursion: the
  aliases handed out are distinct, and each is an unambiguous abbreviation followed by a
  number below the counter of that abbreviation.\<close>

definition isDigit :: "char \<Rightarrow> bool" where
  "isDigit c = (c \<in> set ''0123456789'')"

definition okAbbrev :: "string \<Rightarrow> bool" where
  "okAbbrev a = (a = [] \<or> \<not> isDigit (last a))"

definition joinAliases :: "query \<Rightarrow> string list" where
  "joinAliases q = map (\<lambda>(t, c1, c2). c2) (joins q)"

definition wellAliased :: "string list \<Rightarrow> cstate \<Rightarrow> bool" where
  "wellAliased base st \<longleftrightarrow>
     distinct (base @ joinAliases (query st)) \<and>
     (\<forall>c \<in> set (base @ joinAliases (query st)).
        \<exists>a i n. okAbbrev a \<and> c = a @ showNat i @ ''.id'' \<and> aliases st a = Some n \<and> i < n)"

definition okCatalog :: "env \<Rightarrow> bool" where
  "okCatalog e \<longleftrightarrow> (\<forall>ty. okAbbrev (abbreviationOf (tableName (getMetadata e ty))))"

section \<open>Shapes of clauses and predicates\<close>

text \<open>The clauses on a foreign key that name the related row by its identifier only: an
  identifier string, an array, an entity, and the one-key object \<^verbatim>\<open>{ id: ... }\<close>.\<close>

fun keyOnlyShape :: "jsval \<Rightarrow> bool" where
  "keyOnlyShape (JStr s) = True"
| "keyOnlyShape (JArr xs) = True"
| "keyOnlyShape (JEntity i kvs) = True"
| "keyOnlyShape (JObj [(k, v)]) = (k = ''id'')"
| "keyOnlyShape v = False"


text \<open>The predicate that each of these shapes stands for, on column \<open>col\<close> and with the
  codec \<open>lower\<close>: membership in the lowered elements for an array, bare or under \<^verbatim>\<open>id\<close>;
  equality with \<^verbatim>\<open>-1\<close> for an entity without an identifier; equality with the lowered
  identifier or entity, or with the lowered value under \<^verbatim>\<open>id\<close>, otherwise.\<close>

fun keyPredicate :: "string \<Rightarrow> (jsval \<Rightarrow> jsval) \<Rightarrow> jsval \<Rightarrow> predicate" where
  "keyPredicate col lower (JStr s) = Where col (lower (JStr s))"
| "keyPredicate col lower (JArr xs) = WhereIn col (map lower xs)"
| "keyPredicate col lower (JEntity None kvs) = Where col (JNum (- 1))"
| "keyPredicate col lower (JEntity (Some i) kvs) = Where col (lower (JEntity (Some i) kvs))"
| "keyPredicate col lower (JObj [(k, JArr xs)]) = WhereIn col (map lower xs)"
| "keyPredicate col lower (JObj [(k, v)]) = Where col (lower v)"
| "keyPredicate col lower v = Where col (lower v)"

section \<open>A sample schema\<close>

text \<open>Authors with an age, a publisher and a mentor (another author); publishers with a
  name. The codecs leave values as they are.\<close>

definition ageColumn :: column_meta where
  "ageColumn = \<lparr>fieldName = ''age'', columnName = ''age'', serde = PrimitiveSerde (\<lambda>v. v)\<rparr>"

definition publisherColumn :: column_meta where
  "publisherColumn = \<lparr>fieldName = ''publisher'', columnName = ''publisher_id'',
     serde = ForeignKeySerde (\<lambda>v. v) ''Publisher''\<rparr>"

definition mentorColumn :: column_meta where
  "mentorColumn = \<lparr>fieldName = ''mentor'', columnName = ''mentor_id'',
     serde = ForeignKeySerde (\<lambda>v. v) ''Author''\<rparr>"

definition nameColumn :: column_meta where
  "nameColumn = \<lparr>fieldName = ''name'', columnName = ''name'', serde = PrimitiveSerde (\<lambda>v. v)\<rparr>"

definition authorMeta :: entity_metadata where
  "authorMeta = \<lparr>tableName = ''authors'', columns = [ageColumn, publisherColumn, mentorColumn]\<rparr>"

definition publisherMeta :: entity_metadata where
  "publisherMeta = \<lparr>tableName = ''publishers'', columns = [nameColumn]\<rparr>"

definition sampleEnv :: env where
  "sampleEnv = \<lparr>getMetadata = (\<lambda>t. if t = ''Author'' then authorMeta else publisherMeta),
     entityLimit = 10000\<rparr>"

definition authorsQuery :: query where
  "authorsQuery = fromTbl (knexSelect ''a0.*'') ''authors AS a0''"

definition sampleFilter :: filter_and_settings where
  "sampleFilter = \<lparr>fWhere = [(''age'', JObj [(''gt'', JNum 30)]),
                            (''publisher'', JObj [(''name'', JStr ''Acme'')])],
     fOrderBy = Some [(''age'', JStr ''DESC'')], fLimit = None, fOffset = None\<rparr>"

text \<open>What \<^verbatim>\<open>buildQuery\<close> makes of it. The key \<^verbatim>\<open>age\<close> is in the filter and in the ordering,
  and \<^verbatim>\<open>addClauses\<close> visits it once for each.\<close>

definition sampleQuery :: query where
  "sampleQuery = \<lparr>selects = [''a0.*''], fromTable = [''authors AS a0''],
     joins = [(''publishers AS p0'', ''a0.publisher_id'', ''p0.id'')],
     wheres = [WhereOp ''a0.age'' (Comparison ''>'') (JNum 30), Where ''p0.name'' (JStr ''Acme''),
               WhereOp ''a0.age'' (Comparison ''>'') (JNum 30)],
     orders = [(''a0.age'', JStr ''DESC''), (''a0.age'', JStr ''DESC''), (''a0.id'', JUndefined)],
     limits = [10000], offsets = []\<rparr>"

text \<open>A filter whose nested part names a field that publishers do not have.\<close>

definition nestedBogus :: filter_and_settings where
  "nestedBogus = \<lparr>fWhere = [(''publisher'', JObj [(''bogus'', JNum 1)]), (''age'', JNum 3)],
     fOrderBy = None, fLimit = None, fOffset = None\<rparr>"

definition pagedFilter :: "int option \<Rightarrow> int option \<Rightarrow> filter_and_settings" where
  "pagedFilter l k = \<lparr>fWhere = [], fOrderBy = None, fLimit = l, fOffset = k\<rparr>"

definition pagedQuery :: "int list \<Rightarrow> int list \<Rightarrow> query" where
  "pagedQuery ls ks = \<lparr>selects = [''a0.*''], fromTable = [''authors AS a0''], joins = [],
     wheres = [], orders = [(''a0.id'', JUndefined)], limits = ls, offsets = ks\<rparr>"

definition sampleState :: cstate where
  "sampleState = \<lparr>query = authorsQuery, aliases = [''a'' \<mapsto> 1]\<rparr>"

text \<open>A second schema: accounts, each with a parent account and a tax form. The table
  names abbreviate to \<^verbatim>\<open>a\<close> and to \<^verbatim>\<open>a1\<close>.\<close>

definition accountMeta :: entity_metadata where
  "accountMeta = \<lparr>tableName = ''accounts'', columns =
     [\<lparr>fieldName = ''parent'', columnName = ''parent_id'',
       serde = ForeignKeySerde (\<lambda>v. v) ''Account''\<rparr>,
      \<lparr>fieldName = ''form'', columnName = ''form_id'',
       serde = ForeignKeySerde (\<lambda>v. v) ''Form''\<rparr>]\<rparr>"

definition formMeta :: entity_metadata where
  "formMeta = \<lparr>tableName = ''audit_1099s'', columns =
     [\<lparr>fieldName = ''year'', columnName = ''year'', serde = PrimitiveSerde (\<lambda>v. v)\<rparr>]\<rparr>"

definition ledgerEnv :: env where
  "ledgerEnv = \<lparr>getMetadata = (\<lambda>t. if t = ''Account'' then accountMeta else formMeta),
     entityLimit = 10000\<rparr>"

text \<open>The filter \<^verbatim>\<open>{ parent: { parent: ... { form: { year: 2020 } } } }\<close> with \<open>n\<close> times
  \<^verbatim>\<open>parent\<close>.\<close>

fun ancestorFilter :: "nat \<Rightarrow> jsval" where
  "ancestorFilter 0 = JObj [(''form'', JObj [(''year'', JNum 2020)])]"
| "ancestorFilter (Suc n) = JObj [(''parent'', ancestorFilter n)]"

definition tenthAncestor :: filter_and_settings where
  "tenthAncestor = \<lparr>fWhere = [(''parent'', ancestorFilter 9)],
     fOrderBy = None, fLimit = None, fOffset = None\<rparr>"

definition tenthAncestorQuery :: query where
  "tenthAncestorQuery = \<lparr>selects = [''a0.*''], fromTable = [''accounts AS a0''],
     joins = [(''accounts AS a1'', ''a0.parent_id'', ''a1.id''),
              (''accounts AS a2'', ''a1.parent_id'', ''a2.id''),
              (''accounts AS a3'', ''a2.parent_id'', ''a3.id''),
              (''accounts AS a4'', ''a3.parent_id'', ''a4.id''),
              (''accounts AS a5'', ''a4.parent_id'', ''a5.id''),
              (''accounts AS a6'', ''a5.parent_id'', ''a6.id''),
              (''accounts AS a7'', ''a6.parent_id'', ''a7.id''),
              (''accounts AS a8'', ''a7.parent_id'', ''a8.id''),
              (''accounts AS a9'', ''a8.parent_id'', ''a9.id''),
              (''accounts AS a10'', ''a9.parent_id'', ''a10.id''),
              (''audit_1099s AS a10'', ''a10.form_id'', ''a10.id'')],
     wheres = [Where ''a10.year'' (JNum 2020)],
     orders = [(''a0.id'', JUndefined)], limits = [10000], offsets = []\<rparr>"

text \<open>A third schema: nodes whose only field, named \<^verbatim>\<open>0\<close>, refers to another node.\<close>

definition loopMeta :: entity_metadata where
  "loopMeta = \<lparr>tableName = ''nodes'', columns =
     [\<lparr>fieldName = ''0'', columnName = ''next_id'', serde = ForeignKeySerde (\<lambda>v. v) ''Node''\<rparr>]\<rparr>"

definition loopEnv :: env where
  "loopEnv = \<lparr>getMetadata = (\<lambda>t. loopMeta), entityLimit = 10000\<rparr>"

section \<open>Operators on a null operand\<close>

lemma showNat_0: "showNat 0 = ''0''"
  by (simp add: showNat.simps digit_def)

lemma getProp_first: "getProp (JObj ((k, v) # rest)) k = v"
  by (simp add: lookupProp_def)

lemma find_operators_iff:
  "List.find (\<lambda>op. op \<in> S) operators \<noteq> None \<longleftrightarrow> (\<exists>op \<in> set operators. op \<in> S)"
  by (auto simp: find_None_iff)

lemma addPrimitiveClause_keyed:
  assumes "op \<in> set operators"
  shows "addPrimitiveClause q alias column (JObj [(op, v)]) =
           addPrimitiveOperator q alias column (JStr op) v"
  using assms by (simp add: addPrimitiveClause_def find_None_iff lookupProp_def)

lemma addPrimitiveClause_explicit:
  "addPrimitiveClause q alias column (JObj [(''op'', opv), (''value'', v)]) =
     addPrimitiveOperator q alias column opv v"
  by (simp add: addPrimitiveClause_def find_None_iff lookupProp_def operators_def)

text \<open>
  Claim C4. When the operand of an operator on a primitive column is \<^verbatim>\<open>null\<close> or
  \<^verbatim>\<open>undefined\<close>, \<^verbatim>\<open>eq\<close> adds an "is null" predicate, \<^verbatim>\<open>ne\<close> adds an "is not null"
  predicate, and every other operator (\<^verbatim>\<open>gt\<close>, \<^verbatim>\<open>gte\<close>, \<^verbatim>\<open>lt\<close>, \<^verbatim>\<open>lte\<close>, \<^verbatim>\<open>like\<close>,
  \<^verbatim>\<open>ilike\<close>, \<^verbatim>\<open>in\<close>) raises the unsupported-operation error. This holds of the
  operator translator itself and of both clause forms that reach it, \<^verbatim>\<open>{ op: v }\<close> and
  \<^verbatim>\<open>{ op: op, value: v }\<close>.
\<close>

theorem null_operand_operator:
  assumes "v = JNull \<or> v = JUndefined" and "op \<in> set operators"
  shows "addPrimitiveOperator q alias column (JStr op) v =
           (if op = ''eq'' then Inr (addWhere q (WhereNull (columnRef alias column)))
            else if op = ''ne'' then Inr (addWhere q (WhereNotNull (columnRef alias column)))
            else Inl OnlyNeSupported)
         \<and> addPrimitiveClause q alias column (JObj [(op, v)]) =
             addPrimitiveOperator q alias column (JStr op) v
         \<and> addPrimitiveClause q alias column (JObj [(''op'', JStr op), (''value'', v)]) =
             addPrimitiveOperator q alias column (JStr op) v"
proof -
  have "addPrimitiveOperator q alias column (JStr op) v =
           (if op = ''eq'' then Inr (addWhere q (WhereNull (columnRef alias column)))
            else if op = ''ne'' then Inr (addWhere q (WhereNotNull (columnRef alias column)))
            else Inl OnlyNeSupported)"
    using assms(1) by (auto simp: addPrimitiveOperator_def)
  then show ?thesis
    using assms(2) by (simp only: addPrimitiveClause_keyed addPrimitiveClause_explicit simp_thms)
qed

theorem null_operand_operator_witness:
  "addPrimitiveOperator authorsQuery ''a0'' ageColumn (JStr ''gt'') JNull = Inl OnlyNeSupported
   \<and> addPrimitiveClause authorsQuery ''a0'' ageColumn (JObj [(''gt'', JNull)]) = Inl OnlyNeSupported
   \<and> addPrimitiveClause authorsQuery ''a0'' ageColumn (JObj [(''op'', JStr ''gt''), (''value'', JNull)])
       = Inl OnlyNeSupported"
proof -
  have "JNull = JNull \<or> JNull = JUndefined" and "''gt'' \<in> set operators"
    by (simp_all add: operators_def)
  from null_operand_operator [OF this, of authorsQuery "''a0''" ageColumn]
  show ?thesis by simp
qed

section \<open>The depth bound does not matter\<close>

lemma forEach_mono:
  assumes "\<And>k s r. f k s = Some r \<Longrightarrow> g k s = Some r"
  shows "forEach f ks st = Some r \<Longrightarrow> forEach g ks st = Some r"
proof (induction ks arbitrary: st)
  case Nil
  then show ?case by simp
next
  case (Cons k ks)
  show ?case
  proof (cases "f k st")
    case None
    with Cons.prems show ?thesis by simp
  next
    case (Some x)
    then have g: "g k st = Some x" by (rule assms)
    show ?thesis
    proof (cases x)
      case (Inl e)
      with Some g Cons.prems show ?thesis by auto
    next
      case (Inr st')
      with Some g Cons.prems Cons.IH [of st'] show ?thesis by simp
    qed
  qed
qed

lemma addClausesKey_mono:
  assumes "\<And>m a w od s r. f m a w od s = Some r \<Longrightarrow> g m a w od s = Some r"
  shows "addClausesKey f e meta alias whr ord key st = Some r \<Longrightarrow>
         addClausesKey g e meta alias whr ord key st = Some r"
  unfolding addClausesKey_def Let_def
  by (auto split: option.splits sum.splits prod.splits if_splits intro: assms)

lemma addClauses_Suc:
  "addClauses n e meta alias whr ord st = Some r \<Longrightarrow> addClauses (Suc n) e meta alias whr ord st = Some r"
proof (induction n arbitrary: meta "alias" whr ord st r)
  case 0
  then show ?case by simp
next
  case (Suc n)
  have "forEach (addClausesKey (addClauses n e) e meta alias whr ord) (clauseKeys whr ord) st = Some r"
    using Suc.prems by simp
  then have "forEach (addClausesKey (addClauses (Suc n) e) e meta alias whr ord) (clauseKeys whr ord) st = Some r"
    by (rule forEach_mono [rotated]) (erule addClausesKey_mono [rotated], erule Suc.IH)
  then show ?case by simp
qed

lemma addClauses_mono:
  "n \<le> m \<Longrightarrow> addClauses n e meta alias whr ord st = Some r \<Longrightarrow> addClauses m e meta alias whr ord st = Some r"
  by (induction m) (auto simp: le_Suc_eq dest: addClauses_Suc simp del: addClauses.simps)

lemma addClauses_agree:
  assumes "addClauses n e meta alias whr ord st = Some r" "addClauses m e meta alias whr ord st = Some r'"
  shows "r = r'"
proof (cases "n \<le> m")
  case True
  from addClauses_mono [OF True assms(1)] assms(2) show ?thesis by simp
next
  case False
  then have "m \<le> n" by simp
  from addClauses_mono [OF this assms(2)] assms(1) show ?thesis by simp
qed


lemma buildQuery_mono:
  assumes "n \<le> m" and "buildQuery n e ty flt = Some r"
  shows "buildQuery m e ty flt = Some r"
proof -
  obtain al als where ga: "getAlias Map.empty (tableName (getMetadata e ty)) = (al, als)"
    by (cases "getAlias Map.empty (tableName (getMetadata e ty))")
  let ?run = "\<lambda>k. addClauses k e (getMetadata e ty) al (JObj (fWhere flt))
     (case fOrderBy flt of None \<Rightarrow> JUndefined | Some kvs \<Rightarrow> JObj kvs)
     \<lparr>query = fromTbl (knexSelect (al @ ''.*'')) (tableName (getMetadata e ty) @ '' AS '' @ al),
      aliases = als\<rparr>"
  from assms(2) obtain x where x: "?run n = Some x"
    by (auto simp: buildQuery_def Let_def ga split: option.splits)
  from addClauses_mono [OF assms(1) x] have "?run m = Some x" .
  with x assms(2) show ?thesis
    by (simp add: buildQuery_def Let_def ga)
qed

text \<open>
  The bound on the depth of the recursion is the only argument of the model that the
  source does not have. It has no effect on the result: once a bound is large enough for
  the compilation to end, every larger bound gives the same query or the same error, and
  any two bounds under which it ends agree.
\<close>

lemma buildQuery_bound_irrelevant:
  assumes "buildQuery n e ty flt = Some r"
  shows "(\<forall>m. n \<le> m \<longrightarrow> buildQuery m e ty flt = Some r)
         \<and> (\<forall>m r'. buildQuery m e ty flt = Some r' \<longrightarrow> r' = r)"
proof (intro conjI allI impI)
  fix m assume "n \<le> m"
  then show "buildQuery m e ty flt = Some r" using assms by (rule buildQuery_mono)
next
  fix m r' assume m: "buildQuery m e ty flt = Some r'"
  show "r' = r"
  proof (cases "n \<le> m")
    case True
    from buildQuery_mono [OF True assms] m show ?thesis by simp
  next
    case False
    then have "m \<le> n" by simp
    from buildQuery_mono [OF this m] assms show ?thesis by simp
  qed
qed

lemma sample_run: "buildQuery 2 sampleEnv ''Author'' sampleFilter = Some (Inr sampleQuery)"
  by code_simp

lemma buildQuery_bound_irrelevant_sample:
  "buildQuery 2 sampleEnv ''Author'' sampleFilter = Some (Inr sampleQuery)
   \<and> buildQuery 9 sampleEnv ''Author'' sampleFilter = Some (Inr sampleQuery)"
proof -
  from buildQuery_bound_irrelevant [OF sample_run]
  have "buildQuery 9 sampleEnv ''Author'' sampleFilter = Some (Inr sampleQuery)" by simp
  with sample_run show ?thesis by simp
qed

section \<open>A compilation that does not end\<close>

text \<open>The ordering \<^verbatim>\<open>{ 0: "A" }\<close> on nodes: the string \<^verbatim>\<open>"A"\<close> has the one key \<^verbatim>\<open>0\<close>, under
  which it holds \<^verbatim>\<open>"A"\<close> again, so every call of \<^verbatim>\<open>addClauses\<close> joins \<^verbatim>\<open>nodes\<close> once more
  and recurses. No depth bound is large enough.\<close>

lemma loop_step:
  "addClausesKey recur loopEnv loopMeta al JUndefined (JStr ''A'') ''0'' st =
     recur loopMeta (fst (getAlias (aliases st) ''nodes'')) JUndefined (JStr ''A'')
       \<lparr>query = innerJoin (query st) (''nodes AS '' @ fst (getAlias (aliases st) ''nodes''))
                  (al @ ''.next_id'') (fst (getAlias (aliases st) ''nodes'') @ ''.id''),
        aliases = snd (getAlias (aliases st) ''nodes'')\<rparr>"
  by (simp add: addClausesKey_def loopMeta_def loopEnv_def Let_def andGet_def andHas_def
      indexOfKey_def showNat_0 columnRef_def split: prod.splits)

lemma loop_keys: "clauseKeys JUndefined (JStr ''A'') = [''0'']"
  by (simp add: clauseKeys_def indexKeys_def showNat_0)

lemma loop_never_returns: "addClauses n loopEnv loopMeta al JUndefined (JStr ''A'') st = None"
proof (induction n arbitrary: al st)
  case 0
  then show ?case by simp
next
  case (Suc n)
  show ?case
    by (simp only: addClauses.simps loop_keys forEach.simps loop_step Suc.IH option.case)
qed

lemma runaway_ordering: "buildQuery n loopEnv ''Node'' \<lparr>fWhere = [], fOrderBy = Some [(''0'', JStr ''A'')], fLimit = None, fOffset = None\<rparr> = None"
proof (cases n)
  case 0
  then show ?thesis by (simp add: buildQuery_def Let_def split: prod.splits)
next
  case (Suc k)
  have keys: "clauseKeys (JObj []) (JObj [(''0'', JStr ''A'')]) = [''0'']"
    by (simp add: clauseKeys_def)
  have step: "addClausesKey recur loopEnv loopMeta al (JObj []) (JObj [(''0'', JStr ''A'')]) ''0'' st =
     recur loopMeta (fst (getAlias (aliases st) ''nodes'')) JUndefined (JStr ''A'')
       \<lparr>query = innerJoin (query st) (''nodes AS '' @ fst (getAlias (aliases st) ''nodes''))
                  (al @ ''.next_id'') (fst (getAlias (aliases st) ''nodes'') @ ''.id''),
        aliases = snd (getAlias (aliases st) ''nodes'')\<rparr>" for recur al st
    by (simp add: addClausesKey_def loopMeta_def loopEnv_def Let_def andGet_def andHas_def
      lookupProp_def columnRef_def split: prod.splits)
  have "addClauses (Suc k) loopEnv loopMeta al (JObj []) (JObj [(''0'', JStr ''A'')]) st = None" for al st
    by (simp only: addClauses.simps keys forEach.simps step loop_never_returns option.case)
  then show ?thesis
    by (simp add: buildQuery_def Let_def Suc loopEnv_def del: addClauses.simps split: prod.splits)
qed

section \<open>Ordering and pagination\<close>

lemma addForeignKeyClause_paging:
  "addForeignKeyClause q a c cl = Inr (b, q') \<Longrightarrow> limits q' = limits q \<and> offsets q' = offsets q"
  by (auto simp: addForeignKeyClause_def Let_def addWhere_def split: if_splits)

lemma addPrimitiveOperator_paging:
  "addPrimitiveOperator q a c op v = Inr q' \<Longrightarrow> limits q' = limits q \<and> offsets q' = offsets q"
  by (auto simp: addPrimitiveOperator_def Let_def addWhere_def split: if_splits option.splits)

lemma addPrimitiveClause_paging:
  "addPrimitiveClause q a c cl = Inr q' \<Longrightarrow> limits q' = limits q \<and> offsets q' = offsets q"
  unfolding addPrimitiveClause_def Let_def
  by (auto simp: addWhere_def split: if_splits dest: addPrimitiveOperator_paging)

lemma addClausesKey_paging:
  assumes "\<And>m a w od s s'. f m a w od s = Some (Inr s') \<Longrightarrow>
             limits (query s') = limits (query s) \<and> offsets (query s') = offsets (query s)"
    and "addClausesKey f e meta al whr ord key st = Some (Inr st')"
  shows "limits (query st') = limits (query st) \<and> offsets (query st') = offsets (query st)"
  using assms(2) unfolding addClausesKey_def Let_def
  by (auto split: option.splits sum.splits prod.splits if_splits
      dest!: assms(1) addForeignKeyClause_paging addPrimitiveClause_paging
      simp: innerJoin_def orderBy_def)

lemma forEach_paging:
  assumes "\<And>k s s'. f k s = Some (Inr s') \<Longrightarrow>
             limits (query s') = limits (query s) \<and> offsets (query s') = offsets (query s)"
  shows "forEach f ks st = Some (Inr st') \<Longrightarrow>
         limits (query st') = limits (query st) \<and> offsets (query st') = offsets (query st)"
proof (induction ks arbitrary: st)
  case Nil
  then show ?case by simp
next
  case (Cons k ks)
  then obtain s where s: "f k st = Some (Inr s)" and rest: "forEach f ks s = Some (Inr st')"
    by (auto split: option.splits sum.splits)
  from assms [OF s] Cons.IH [OF rest] show ?case by simp
qed

lemma addClauses_paging:
  "addClauses n e meta al whr ord st = Some (Inr st') \<Longrightarrow>
   limits (query st') = limits (query st) \<and> offsets (query st') = offsets (query st)"
proof (induction n arbitrary: meta al whr ord st st')
  case 0
  then show ?case by simp
next
  case (Suc n)
  from Suc.prems
  have "forEach (addClausesKey (addClauses n e) e meta al whr ord) (clauseKeys whr ord) st = Some (Inr st')"
    by simp
  then show ?case
    by (rule forEach_paging [rotated]) (erule addClausesKey_paging [rotated], erule Suc.IH)
qed


text \<open>
  Claim C1. Every query that \<^verbatim>\<open>buildQuery\<close> returns has at least one order term, and its
  last order term is \<^verbatim>\<open>orderBy(`${alias}.id`)\<close> on the alias of the base table (the
  abbreviation of its table name followed by \<^verbatim>\<open>0\<close>), with no direction given, which
  knex orders ascending; whatever the filter and the user's ordering are. The order
  terms before it are those that \<^verbatim>\<open>addClauses\<close> left in the query.
\<close>

theorem buildQuery_last_order:
  assumes "buildQuery n e ty flt = Some (Inr q)"
  shows "orders q \<noteq> []
         \<and> last (orders q) = (abbreviationOf (tableName (getMetadata e ty)) @ ''0.id'', JUndefined)
         \<and> (\<exists>st. addClauses n e (fst (rootScope e ty flt))
                     (abbreviationOf (tableName (getMetadata e ty)) @ ''0'')
                     (fst (snd (rootScope e ty flt))) (snd (snd (rootScope e ty flt)))
                     \<lparr>query = fromTbl
                        (knexSelect (abbreviationOf (tableName (getMetadata e ty)) @ ''0.*''))
                        (tableName (getMetadata e ty) @ '' AS ''
                           @ abbreviationOf (tableName (getMetadata e ty)) @ ''0''),
                      aliases = [abbreviationOf (tableName (getMetadata e ty)) \<mapsto> 1]\<rparr>
                   = Some (Inr st)
                 \<and> orders q = orders (query st)
                     @ [(abbreviationOf (tableName (getMetadata e ty)) @ ''0.id'', JUndefined)])"
  using assms
  by (auto simp: buildQuery_def rootScope_def Let_def getAlias_def showNat_0 orderBy_def limit_def
      offset_def split: option.splits sum.splits if_splits)

theorem buildQuery_last_order_witness:
  "buildQuery 2 sampleEnv ''Author'' sampleFilter = Some (Inr sampleQuery)
   \<and> orders sampleQuery \<noteq> []
   \<and> last (orders sampleQuery) = (''a0.id'', JUndefined)"
proof -
  have "abbreviationOf (tableName (getMetadata sampleEnv ''Author'')) = ''a''"
    by code_simp
  with buildQuery_last_order [OF sample_run] sample_run show ?thesis by simp
qed

text \<open>
  Claim C7, as the source has it. The limit of a returned query is the user's limit when
  one is given and is not zero, and \<^verbatim>\<open>entityLimit\<close> when none is given or zero is given
  (\<^verbatim>\<open>limit || entityLimit\<close>), so every returned query has a limit. An offset is applied
  only when one is given and is not zero; otherwise the query has no offset at all.
\<close>

theorem buildQuery_paging:
  assumes "buildQuery n e ty flt = Some (Inr q)"
  shows "limits q = [case fLimit flt of None \<Rightarrow> entityLimit e
                     | Some l \<Rightarrow> if l = 0 then entityLimit e else l]
         \<and> offsets q = (case fOffset flt of None \<Rightarrow> [] | Some k \<Rightarrow> if k = 0 then [] else [k])"
proof -
  obtain al als where ga: "getAlias Map.empty (tableName (getMetadata e ty)) = (al, als)"
    by (cases "getAlias Map.empty (tableName (getMetadata e ty))")
  from assms obtain st where
    run: "addClauses n e (getMetadata e ty) al (JObj (fWhere flt))
     (case fOrderBy flt of None \<Rightarrow> JUndefined | Some kvs \<Rightarrow> JObj kvs)
     \<lparr>query = fromTbl (knexSelect (al @ ''.*'')) (tableName (getMetadata e ty) @ '' AS '' @ al),
      aliases = als\<rparr> = Some (Inr st)"
    by (auto simp: buildQuery_def Let_def ga split: option.splits sum.splits)
  from addClauses_paging [OF run]
  have base: "limits (query st) = [] \<and> offsets (query st) = []"
    by (simp add: fromTbl_def knexSelect_def)
  from assms run base show ?thesis
    by (cases "fLimit flt"; cases "fOffset flt")
       (auto simp: buildQuery_def Let_def ga orderBy_def limit_def offset_def)
qed

lemma paged_run:
  "buildQuery 1 sampleEnv ''Author'' (pagedFilter (Some 25) (Some 50)) = Some (Inr (pagedQuery [25] [50]))"
  by code_simp

theorem buildQuery_paging_witness:
  "buildQuery 1 sampleEnv ''Author'' (pagedFilter (Some 25) (Some 50)) = Some (Inr (pagedQuery [25] [50]))
   \<and> limits (pagedQuery [25] [50]) = [25] \<and> offsets (pagedQuery [25] [50]) = [50]"
  using buildQuery_paging [OF paged_run] paged_run by (simp add: pagedFilter_def)

text \<open>A limit of zero is given, and the query is limited to \<^verbatim>\<open>entityLimit\<close> rows.\<close>

theorem limit_zero_counterexample:
  "buildQuery 1 sampleEnv ''Author'' (pagedFilter (Some 0) None) = Some (Inr (pagedQuery [10000] []))"
  by code_simp

section \<open>Clauses on a foreign key\<close>

lemma addClausesKey_fk_direct:
  assumes "List.find (\<lambda>c. fieldName c = key) (columns meta) = Some column"
    and "isForeignKeySerde (serde column)"
    and "map_of kvs key = Some clause"
    and "\<not> truthy (andGet ord key)"
    and "addForeignKeyClause (query st) al column clause = Inr (False, q')"
  shows "addClausesKey recur e meta al (JObj kvs) ord key st = Some (Inr (st\<lparr>query := q'\<rparr>))"
proof -
  from assms(3) have "key \<in> fst ` set kvs"
    by (metis domI dom_map_of_conv_image_fst)
  with assms show ?thesis
    by (simp add: addClausesKey_def Let_def andGet_def andHas_def lookupProp_def)
qed

lemma addClausesKey_fk_error:
  assumes "List.find (\<lambda>c. fieldName c = key) (columns meta) = Some column"
    and "isForeignKeySerde (serde column)"
    and "map_of kvs key = Some clause"
    and "addForeignKeyClause (query st) al column clause = Inl err"
  shows "addClausesKey recur e meta al (JObj kvs) ord key st = Some (Inl err)"
proof -
  from assms(3) have "key \<in> fst ` set kvs"
    by (metis domI dom_map_of_conv_image_fst)
  with assms show ?thesis
    by (simp add: addClausesKey_def Let_def andGet_def andHas_def lookupProp_def)
qed

lemma fk_key_only:
  assumes "keyOnlyShape clause"
  shows "addForeignKeyClause q al column clause =
           Inr (False, addWhere q (keyPredicate (columnRef al column) (mapToDb (serde column)) clause))"
  using assms
proof (induction clause rule: keyOnlyShape.induct)
  case (3 i kvs)
  then show ?case by (cases i) (simp_all add: addForeignKeyClause_def Let_def)
next
  case (4 k v)
  then show ?case by (cases v) (simp_all add: addForeignKeyClause_def Let_def lookupProp_def)
qed (simp_all add: addForeignKeyClause_def Let_def)


lemma fk_ne:
  "addForeignKeyClause q al column (JObj [(''ne'', v)]) =
     (if v = JNull \<or> v = JUndefined then Inr (False, addWhere q (WhereNotNull (columnRef al column)))
      else if isString v then Inr (False, addWhere q (WhereNot (columnRef al column) (mapToDb (serde column) v)))
      else Inl NotImplemented)"
  by (simp add: addForeignKeyClause_def Let_def lookupProp_def)

lemma fk_unsaved:
  "addForeignKeyClause q al column (JEntity None kvs) =
     Inr (False, addWhere q (Where (columnRef al column) (JNum (- 1))))"
  by (simp add: addForeignKeyClause_def Let_def)


lemma find_publisher:
  "List.find (\<lambda>c. fieldName c = ''publisher'') (columns authorMeta) = Some publisherColumn"
  by (simp add: authorMeta_def ageColumn_def publisherColumn_def)

lemma publisher_fk: "isForeignKeySerde (serde publisherColumn)"
  by (simp add: publisherColumn_def)

lemma publisher_ref: "columnRef ''a0'' publisherColumn = ''a0.publisher_id''"
  by (simp add: columnRef_def publisherColumn_def)

lemma publisher_lower: "mapToDb (serde publisherColumn) v = v"
  by (simp add: publisherColumn_def)

lemma no_order: "\<not> truthy (andGet JUndefined key)"
  by (simp add: andGet_def)

lemma childScope_order_only:
  assumes "List.find (\<lambda>c. fieldName c = key) (columns meta) = Some column"
    and "isForeignKeySerde (serde column)"
    and "map_of kvs key = Some clause"
    and "\<not> fkNeedsJoin column clause"
  shows "childScope e meta (JObj kvs) ord key =
           (if truthy (andGet ord key)
            then Some (getMetadata e (otherMeta (serde column)), JUndefined, andGet ord key)
            else None)"
  using assms by (simp add: childScope_def Let_def andGet_def lookupProp_def)

lemma fkNeedsJoin_ne: "\<not> fkNeedsJoin column (JObj [(''ne'', v)])"
  by (simp add: fkNeedsJoin_def fk_ne)

lemma fkNeedsJoin_key_only: "keyOnlyShape clause \<Longrightarrow> \<not> fkNeedsJoin column clause"
  by (simp add: fkNeedsJoin_def fk_key_only)



lemma fk_ne_visit:
  assumes "List.find (\<lambda>c. fieldName c = key) (columns meta) = Some column"
    and "isForeignKeySerde (serde column)"
    and "map_of kvs key = Some (JObj [(''ne'', v)])"
    and "\<not> truthy (andGet ord key)"
  shows "addClausesKey recur e meta al (JObj kvs) ord key st =
           (if v = JNull \<or> v = JUndefined then
              Some (Inr (st\<lparr>query := addWhere (query st) (WhereNotNull (columnRef al column))\<rparr>))
            else if isString v then
              Some (Inr (st\<lparr>query := addWhere (query st)
                                        (WhereNot (columnRef al column) (mapToDb (serde column) v))\<rparr>))
            else Some (Inl NotImplemented))
         \<and> addForeignKeyClause (query st) al column (JObj [(''ne'', v)]) =
           (if v = JNull \<or> v = JUndefined then
              Inr (False, addWhere (query st) (WhereNotNull (columnRef al column)))
            else if isString v then
              Inr (False, addWhere (query st) (WhereNot (columnRef al column) (mapToDb (serde column) v)))
            else Inl NotImplemented)"
proof -
  let ?r = "addForeignKeyClause (query st) al column (JObj [(''ne'', v)])"
  consider (null) "v = JNull \<or> v = JUndefined"
    | (str) "\<not> (v = JNull \<or> v = JUndefined)" "isString v"
    | (other) "\<not> (v = JNull \<or> v = JUndefined)" "\<not> isString v"
    by blast
  then show ?thesis
  proof cases
    case null
    then have r: "?r = Inr (False, addWhere (query st) (WhereNotNull (columnRef al column)))"
      by (simp add: fk_ne)
    from addClausesKey_fk_direct [OF assms r] r null show ?thesis by simp
  next
    case str
    then have r: "?r = Inr (False, addWhere (query st)
                     (WhereNot (columnRef al column) (mapToDb (serde column) v)))"
      by (simp add: fk_ne)
    from addClausesKey_fk_direct [OF assms r] r str show ?thesis by simp
  next
    case other
    then have r: "?r = Inl NotImplemented"
      by (simp add: fk_ne)
    from addClausesKey_fk_error [OF assms(1-3) r] r other show ?thesis by simp
  qed
qed



text \<open>
  Claim C5. A filter \<^verbatim>\<open>{ ne: value }\<close> on a foreign-key field adds an "is not null"
  predicate on the key column when the value is \<^verbatim>\<open>null\<close> or \<^verbatim>\<open>undefined\<close>, an
  inequality predicate on the key column when the value is an identifier (a string),
  and raises \<^verbatim>\<open>Not implemented\<close> for every other value, whatever the ordering is. In
  the first two cases the filter asks for no join: the visit of the field recurses, and
  so joins, only when the ordering names the field, and then with no where-clause for
  the joined table; when the ordering does not name it, the visit ends with only the
  predicate added.
\<close>

theorem fk_ne_clause:
  assumes "List.find (\<lambda>c. fieldName c = key) (columns meta) = Some column"
    and "isForeignKeySerde (serde column)"
    and "map_of kvs key = Some (JObj [(''ne'', v)])"
  shows "addForeignKeyClause (query st) al column (JObj [(''ne'', v)]) =
           (if v = JNull \<or> v = JUndefined then
              Inr (False, addWhere (query st) (WhereNotNull (columnRef al column)))
            else if isString v then
              Inr (False, addWhere (query st) (WhereNot (columnRef al column) (mapToDb (serde column) v)))
            else Inl NotImplemented)
         \<and> (\<not> truthy (andGet ord key) \<longrightarrow>
              addClausesKey recur e meta al (JObj kvs) ord key st =
                (if v = JNull \<or> v = JUndefined then
                   Some (Inr (st\<lparr>query := addWhere (query st) (WhereNotNull (columnRef al column))\<rparr>))
                 else if isString v then
                   Some (Inr (st\<lparr>query := addWhere (query st)
                                (WhereNot (columnRef al column) (mapToDb (serde column) v))\<rparr>))
                 else Some (Inl NotImplemented)))
         \<and> (v \<noteq> JNull \<and> v \<noteq> JUndefined \<and> \<not> isString v \<longrightarrow>
              addClausesKey recur e meta al (JObj kvs) ord key st = Some (Inl NotImplemented))
         \<and> childScope e meta (JObj kvs) ord key =
              (if truthy (andGet ord key)
               then Some (getMetadata e (otherMeta (serde column)), JUndefined, andGet ord key)
               else None)"
proof (intro conjI impI)
  show "addForeignKeyClause (query st) al column (JObj [(''ne'', v)]) =
           (if v = JNull \<or> v = JUndefined then
              Inr (False, addWhere (query st) (WhereNotNull (columnRef al column)))
            else if isString v then
              Inr (False, addWhere (query st) (WhereNot (columnRef al column) (mapToDb (serde column) v)))
            else Inl NotImplemented)"
    by (rule fk_ne)
  show "childScope e meta (JObj kvs) ord key =
              (if truthy (andGet ord key)
               then Some (getMetadata e (otherMeta (serde column)), JUndefined, andGet ord key)
               else None)"
    by (rule childScope_order_only [OF assms fkNeedsJoin_ne])
next
  assume "\<not> truthy (andGet ord key)"
  from fk_ne_visit [OF assms this]
  show "addClausesKey recur e meta al (JObj kvs) ord key st =
                (if v = JNull \<or> v = JUndefined then
                   Some (Inr (st\<lparr>query := addWhere (query st) (WhereNotNull (columnRef al column))\<rparr>))
                 else if isString v then
                   Some (Inr (st\<lparr>query := addWhere (query st)
                                (WhereNot (columnRef al column) (mapToDb (serde column) v))\<rparr>))
                 else Some (Inl NotImplemented))"
    by (rule conjunct1)
next
  assume "v \<noteq> JNull \<and> v \<noteq> JUndefined \<and> \<not> isString v"
  then have "addForeignKeyClause (query st) al column (JObj [(''ne'', v)]) = Inl NotImplemented"
    by (simp add: fk_ne)
  from addClausesKey_fk_error [OF assms this]
  show "addClausesKey recur e meta al (JObj kvs) ord key st = Some (Inl NotImplemented)" .
qed

theorem fk_ne_clause_witness:
  "addClausesKey (addClauses 0 sampleEnv) sampleEnv authorMeta ''a0''
     (JObj [(''publisher'', JObj [(''ne'', JStr ''p:1'')])]) JUndefined ''publisher'' sampleState
   = Some (Inr (sampleState\<lparr>query := addWhere (query sampleState)
                                        (WhereNot ''a0.publisher_id'' (JStr ''p:1''))\<rparr>))
   \<and> addClausesKey (addClauses 0 sampleEnv) sampleEnv authorMeta ''a0''
     (JObj [(''publisher'', JObj [(''ne'', JNum 5)])]) JUndefined ''publisher'' sampleState
   = Some (Inl NotImplemented)"
proof -
  have kv: "map_of [(''publisher'', JObj [(''ne'', v)])] ''publisher'' = Some (JObj [(''ne'', v)])"
    for v by simp
  from fk_ne_clause [OF find_publisher publisher_fk kv [of "JStr ''p:1''"],
      of sampleState "''a0''" JUndefined "addClauses 0 sampleEnv" sampleEnv]
    fk_ne_clause [OF find_publisher publisher_fk kv [of "JNum 5"],
      of sampleState "''a0''" JUndefined "addClauses 0 sampleEnv" sampleEnv]
    no_order [of "''publisher''"]
  show ?thesis by (simp add: publisher_ref publisher_lower)
qed

lemma buildQuery_eq:
  assumes "getAlias Map.empty (tableName (getMetadata e ty)) = (al, als)"
    and "ord = (case ob of None \<Rightarrow> JUndefined | Some kvs \<Rightarrow> JObj kvs)"
    and "addClauses n e (getMetadata e ty) al (JObj w) ord
           \<lparr>query = fromTbl (knexSelect (al @ ''.*'')) (tableName (getMetadata e ty) @ '' AS '' @ al),
            aliases = als\<rparr> = Some (Inr st)"
  shows "buildQuery n e ty \<lparr>fWhere = w, fOrderBy = ob, fLimit = l, fOffset = k\<rparr> =
           Some (Inr (let q2 = limit (orderBy (query st) (al @ ''.id'') JUndefined)
                                 (if truthyNum l then the l else entityLimit e)
                      in if truthyNum k then offset q2 (the k) else q2))"
  using assms by (simp add: buildQuery_def Let_def del: addClauses.simps)

lemma unsaved_reference_visit:
  assumes "List.find (\<lambda>c. fieldName c = key) (columns meta) = Some column"
    and "isForeignKeySerde (serde column)"
    and "map_of kvs key = Some (JEntity None props)"
    and "\<not> truthy (andGet ord key)"
  shows "addClausesKey recur e meta al (JObj kvs) ord key st
           = Some (Inr (st\<lparr>query := addWhere (query st) (Where (columnRef al column) (JNum (- 1)))\<rparr>))
         \<and> addForeignKeyClause (query st) al column (JEntity None props)
           = Inr (False, addWhere (query st) (Where (columnRef al column) (JNum (- 1))))
         \<and> (meta = getMetadata e ty \<longrightarrow>
              (\<exists>q. buildQuery (Suc n) e ty
                      \<lparr>fWhere = [(key, JEntity None props)], fOrderBy = None, fLimit = l, fOffset = k\<rparr>
                      = Some (Inr q)
                  \<and> joins q = []
                  \<and> wheres q = [Where (columnRef (abbreviationOf (tableName meta) @ ''0'') column)
                                  (JNum (- 1))]))"
proof (intro conjI impI)
  show "addClausesKey recur e meta al (JObj kvs) ord key st
           = Some (Inr (st\<lparr>query := addWhere (query st) (Where (columnRef al column) (JNum (- 1)))\<rparr>))"
    by (rule addClausesKey_fk_direct [OF assms fk_unsaved])
  show "addForeignKeyClause (query st) al column (JEntity None props)
           = Inr (False, addWhere (query st) (Where (columnRef al column) (JNum (- 1))))"
    by (rule fk_unsaved)
next
  assume m: "meta = getMetadata e ty"
  let ?al = "abbreviationOf (tableName (getMetadata e ty)) @ ''0''"
  let ?als = "[abbreviationOf (tableName (getMetadata e ty)) \<mapsto> 1::nat]"
  let ?w = "[(key, JEntity None props)]"
  let ?st0 = "\<lparr>query = fromTbl (knexSelect (?al @ ''.*'')) (tableName (getMetadata e ty) @ '' AS '' @ ?al),
               aliases = ?als\<rparr>"
  let ?st1 = "?st0\<lparr>query := addWhere (query ?st0) (Where (columnRef ?al column) (JNum (- 1)))\<rparr>"
  have step: "addClausesKey (addClauses n e) e (getMetadata e ty) ?al (JObj ?w) JUndefined key ?st0
           = Some (Inr ?st1)"
    by (rule addClausesKey_fk_direct [OF assms(1,2) [unfolded m] _ _ fk_unsaved])
       (simp_all add: andGet_def)
  have keys: "clauseKeys (JObj ?w) JUndefined = [key]"
    by (simp add: clauseKeys_def)
  have run: "addClauses (Suc n) e (getMetadata e ty) ?al (JObj ?w) JUndefined ?st0 = Some (Inr ?st1)"
    by (simp only: addClauses.simps keys forEach.simps step option.case sum.case)
  have ga: "getAlias Map.empty (tableName (getMetadata e ty)) = (?al, ?als)"
    by (simp add: getAlias_def showNat_0 Let_def)
  have ord: "JUndefined = (case None of None \<Rightarrow> JUndefined | Some kvs \<Rightarrow> JObj kvs)"
    by simp
  from buildQuery_eq [OF ga ord run, of l k]
  show "\<exists>q. buildQuery (Suc n) e ty
                      \<lparr>fWhere = [(key, JEntity None props)], fOrderBy = None, fLimit = l, fOffset = k\<rparr>
                      = Some (Inr q)
                  \<and> joins q = []
                  \<and> wheres q = [Where (columnRef (abbreviationOf (tableName meta) @ ''0'') column)
                                  (JNum (- 1))]"
    by (simp add: m Let_def addWhere_def orderBy_def limit_def offset_def fromTbl_def knexSelect_def)
qed


text \<open>
  Claim C6. A filter on a foreign-key field by an entity whose \<^verbatim>\<open>id\<close> is \<^verbatim>\<open>undefined\<close>
  raises no error: \<^verbatim>\<open>addForeignKeyClause\<close> adds the predicate that the key column equals
  \<^verbatim>\<open>-1\<close> (the value the source uses because no row has it) and asks for no join. The
  visit of the field recurses, and so joins, only when the ordering names the field;
  when it does not, the visit ends with only that predicate added. The compilation of a
  filter that consists of this field returns a query without joins whose only predicate
  is that one.
\<close>

theorem unsaved_reference:
  assumes "List.find (\<lambda>c. fieldName c = key) (columns meta) = Some column"
    and "isForeignKeySerde (serde column)"
    and "map_of kvs key = Some (JEntity None props)"
  shows "addForeignKeyClause (query st) al column (JEntity None props)
           = Inr (False, addWhere (query st) (Where (columnRef al column) (JNum (- 1))))
         \<and> (\<not> truthy (andGet ord key) \<longrightarrow>
              addClausesKey recur e meta al (JObj kvs) ord key st
                = Some (Inr (st\<lparr>query := addWhere (query st)
                                             (Where (columnRef al column) (JNum (- 1)))\<rparr>)))
         \<and> childScope e meta (JObj kvs) ord key =
              (if truthy (andGet ord key)
               then Some (getMetadata e (otherMeta (serde column)), JUndefined, andGet ord key)
               else None)
         \<and> (meta = getMetadata e ty \<longrightarrow>
              (\<exists>q. buildQuery (Suc n) e ty
                      \<lparr>fWhere = [(key, JEntity None props)], fOrderBy = None, fLimit = l, fOffset = k\<rparr>
                      = Some (Inr q)
                  \<and> joins q = []
                  \<and> wheres q = [Where (columnRef (abbreviationOf (tableName meta) @ ''0'') column)
                                  (JNum (- 1))]))"
proof (intro conjI impI)
  show "addForeignKeyClause (query st) al column (JEntity None props)
           = Inr (False, addWhere (query st) (Where (columnRef al column) (JNum (- 1))))"
    by (rule fk_unsaved)
  have "keyOnlyShape (JEntity None props)" by simp
  then have "\<not> fkNeedsJoin column (JEntity None props)" by (rule fkNeedsJoin_key_only)
  then show "childScope e meta (JObj kvs) ord key =
              (if truthy (andGet ord key)
               then Some (getMetadata e (otherMeta (serde column)), JUndefined, andGet ord key)
               else None)"
    by (rule childScope_order_only [OF assms])
next
  assume "\<not> truthy (andGet ord key)"
  from unsaved_reference_visit [OF assms this]
  show "addClausesKey recur e meta al (JObj kvs) ord key st
                = Some (Inr (st\<lparr>query := addWhere (query st)
                                             (Where (columnRef al column) (JNum (- 1)))\<rparr>))"
    by (rule conjunct1)
next
  assume "meta = getMetadata e ty"
  with unsaved_reference_visit [OF assms no_order, of recur e al st ty n l k]
  show "\<exists>q. buildQuery (Suc n) e ty
                      \<lparr>fWhere = [(key, JEntity None props)], fOrderBy = None, fLimit = l, fOffset = k\<rparr>
                      = Some (Inr q)
                  \<and> joins q = []
                  \<and> wheres q = [Where (columnRef (abbreviationOf (tableName meta) @ ''0'') column)
                                  (JNum (- 1))]"
    by blast
qed

theorem unsaved_reference_witness:
  "\<exists>q. buildQuery 1 sampleEnv ''Author''
          \<lparr>fWhere = [(''publisher'', JEntity None [])], fOrderBy = None, fLimit = None, fOffset = None\<rparr>
        = Some (Inr q)
      \<and> joins q = [] \<and> wheres q = [Where ''a0.publisher_id'' (JNum (- 1))]"
proof -
  have kv: "map_of [(''publisher'', JEntity None [])] ''publisher'' = Some (JEntity None [])"
    by simp
  have m: "authorMeta = getMetadata sampleEnv ''Author''"
    by (simp add: sampleEnv_def)
  have a: "abbreviationOf (tableName authorMeta) @ ''0'' = ''a0''"
    by code_simp
  from unsaved_reference [OF find_publisher publisher_fk kv,
      of sampleState "''a0''" JUndefined "addClauses 0 sampleEnv" sampleEnv "''Author''" 0 None None]
  show ?thesis by (simp only: m [symmetric] a publisher_ref One_nat_def simp_thms)
qed

section \<open>Unknown fields\<close>

lemma forEach_abort:
  assumes "key \<in> set keys" and "\<And>s. f key s = Some (Inl err)"
  shows "forEach f keys st \<noteq> Some (Inr st')"
  using assms(1)
proof (induction keys arbitrary: st)
  case Nil
  then show ?case by simp
next
  case (Cons k ks)
  show ?case
  proof (cases "k = key")
    case True
    then show ?thesis by (simp add: assms(2))
  next
    case False
    with Cons.prems have "key \<in> set ks" by simp
    from Cons.IH [OF this] show ?thesis
      by (auto split: option.splits sum.splits)
  qed
qed

lemma forEach_first_error:
  "f key st = Some (Inl err) \<Longrightarrow> forEach f (key # keys) st = Some (Inl err)"
  by simp

lemma addClausesKey_unknown:
  "List.find (\<lambda>c. fieldName c = key) (columns meta) = None \<Longrightarrow>
   addClausesKey recur e meta al whr ord key st = Some (Inl (NotFound key))"
  by (simp add: addClausesKey_def)

lemma addClauses_unknown:
  assumes "List.find (\<lambda>c. fieldName c = key) (columns meta) = None"
    and "key \<in> set (clauseKeys whr ord)"
  shows "addClauses n e meta al whr ord st \<noteq> Some (Inr st')"
proof (cases n)
  case 0
  then show ?thesis by simp
next
  case (Suc k)
  have "forEach (addClausesKey (addClauses k e) e meta al whr ord) (clauseKeys whr ord) st
          \<noteq> Some (Inr st')"
    by (rule forEach_abort [OF assms(2)]) (rule addClausesKey_unknown [OF assms(1)])
  with Suc show ?thesis by simp
qed

lemma fkNeedsJoin_flag:
  "addForeignKeyClause q al c cl = Inr (b, q') \<Longrightarrow> fkNeedsJoin c cl = b"
  unfolding fkNeedsJoin_def addForeignKeyClause_def Let_def
  by (auto split: if_splits)

lemma addClausesKey_child:
  assumes "addClausesKey recur e meta al whr ord key st = Some (Inr st')"
    and "childScope e meta whr ord key = Some (m', w', o')"
  shows "\<exists>oa s. recur m' oa w' o' s = Some (Inr st')"
  using assms unfolding addClausesKey_def childScope_def Let_def
  by (auto split: option.splits sum.splits prod.splits if_splits dest!: fkNeedsJoin_flag)

lemma forEach_visits:
  "forEach f ks st = Some (Inr st') \<Longrightarrow> k \<in> set ks \<Longrightarrow> \<exists>s s'. f k s = Some (Inr s')"
proof (induction ks arbitrary: st)
  case Nil
  then show ?case by simp
next
  case (Cons a ks)
  from Cons.prems(1) obtain s1 where a: "f a st = Some (Inr s1)" and r: "forEach f ks s1 = Some (Inr st')"
    by (auto split: option.splits sum.splits)
  show ?case
  proof (cases "k = a")
    case True
    with a show ?thesis by blast
  next
    case False
    with Cons.prems(2) have "k \<in> set ks" by simp
    from Cons.IH [OF r this] show ?thesis .
  qed
qed

lemma reaches_returns:
  assumes "reaches e sc sc'"
  shows "addClauses n e (fst sc) al (fst (snd sc)) (snd (snd sc)) st = Some (Inr st') \<Longrightarrow>
         \<exists>n' al' s s'. addClauses n' e (fst sc') al' (fst (snd sc')) (snd (snd sc')) s = Some (Inr s')"
  using assms
proof (induction arbitrary: n al st st' rule: reaches.induct)
  case (here s)
  then show ?case by blast
next
  case (down key whr ord meta c s)
  from down.prems obtain k where n: "n = Suc k" by (cases n) auto
  with down.prems have
    "forEach (addClausesKey (addClauses k e) e meta al whr ord) (clauseKeys whr ord) st = Some (Inr st')"
    by simp
  from forEach_visits [OF this down.hyps(1)] obtain s1 s2 where
    v: "addClausesKey (addClauses k e) e meta al whr ord key s1 = Some (Inr s2)" by blast
  obtain m' w' o' where c: "c = (m', w', o')" by (cases c)
  from addClausesKey_child [OF v down.hyps(2) [unfolded c]]
  obtain oa s3 where "addClauses k e m' oa w' o' s3 = Some (Inr s2)" by blast
  then have "addClauses k e (fst c) oa (fst (snd c)) (snd (snd c)) s3 = Some (Inr s2)"
    by (simp add: c)
  from down.IH [OF this] show ?case .
qed


lemma buildQuery_returns:
  assumes "buildQuery n e ty flt = Some (Inr q)"
  shows "\<exists>al st st'. addClauses n e (fst (rootScope e ty flt)) al (fst (snd (rootScope e ty flt)))
            (snd (snd (rootScope e ty flt))) st = Some (Inr st')"
  using assms
  by (auto simp: buildQuery_def rootScope_def Let_def split: prod.splits option.splits sum.splits)

text \<open>A visit recurses only into a child scope: without one, the recursive call is not used.\<close>

lemma addClausesKey_no_child:
  assumes "childScope e meta whr ord key = None"
  shows "addClausesKey recur e meta al whr ord key st = addClausesKey recur' e meta al whr ord key st"
  using assms unfolding addClausesKey_def childScope_def Let_def
  by (auto split: option.splits sum.splits prod.splits if_splits dest!: fkNeedsJoin_flag)

text \<open>
  Claim C8. When a key of the where-clause or of the ordering has no column of that field
  name in the metadata of the entity being visited, the visit of the key raises the
  unknown-field error at once, before anything is added to the query, and the loop over
  the keys ends with that error. No call of \<^verbatim>\<open>addClauses\<close> whose keys include such a
  key returns a state, and \<^verbatim>\<open>buildQuery\<close> returns no query when such a key is among the
  keys of the root scope or of any scope below it.
\<close>

theorem unknown_field_aborts:
  assumes "List.find (\<lambda>c. fieldName c = key) (columns meta) = None"
  shows "addClausesKey recur e meta al whr ord key st = Some (Inl (NotFound key))
         \<and> forEach (addClausesKey recur e meta al whr ord) (key # keys) st = Some (Inl (NotFound key))
         \<and> (key \<in> set (clauseKeys whr ord) \<longrightarrow>
              (\<forall>n st'. addClauses n e meta al whr ord st \<noteq> Some (Inr st')))
         \<and> (key \<in> set (clauseKeys whr ord) \<and> reaches e (rootScope e ty flt) (meta, whr, ord) \<longrightarrow>
              (\<forall>n q. buildQuery n e ty flt \<noteq> Some (Inr q)))"
proof (intro conjI impI allI)
  show "addClausesKey recur e meta al whr ord key st = Some (Inl (NotFound key))"
    by (rule addClausesKey_unknown [OF assms])
  then show "forEach (addClausesKey recur e meta al whr ord) (key # keys) st = Some (Inl (NotFound key))"
    by simp
next
  fix n st' assume "key \<in> set (clauseKeys whr ord)"
  with assms show "addClauses n e meta al whr ord st \<noteq> Some (Inr st')"
    by (rule addClauses_unknown)
next
  fix n q
  assume a: "key \<in> set (clauseKeys whr ord) \<and> reaches e (rootScope e ty flt) (meta, whr, ord)"
  show "buildQuery n e ty flt \<noteq> Some (Inr q)"
  proof
    assume "buildQuery n e ty flt = Some (Inr q)"
    from buildQuery_returns [OF this] obtain al0 st0 st1 where
      "addClauses n e (fst (rootScope e ty flt)) al0 (fst (snd (rootScope e ty flt)))
            (snd (snd (rootScope e ty flt))) st0 = Some (Inr st1)" by blast
    from reaches_returns [OF conjunct2 [OF a] this]
    obtain n' al' s s' where "addClauses n' e meta al' whr ord s = Some (Inr s')" by auto
    with addClauses_unknown [OF assms conjunct1 [OF a]] show False by blast
  qed
qed


lemma child_publisher:
  "childScope sampleEnv authorMeta (JObj [(''publisher'', JObj [(''bogus'', JNum 1)]), (''age'', JNum 3)])
     JUndefined ''publisher'' = Some (publisherMeta, JObj [(''bogus'', JNum 1)], JUndefined)"
  by (simp add: childScope_def authorMeta_def ageColumn_def publisherColumn_def sampleEnv_def
      andGet_def andHas_def lookupProp_def fkNeedsJoin_def addForeignKeyClause_def Let_def)


theorem unknown_field_aborts_witness:
  "addClausesKey (addClauses 0 sampleEnv) sampleEnv publisherMeta ''p0''
     (JObj [(''bogus'', JNum 1)]) JUndefined ''bogus'' sampleState = Some (Inl (NotFound ''bogus''))
   \<and> (\<forall>n q. buildQuery n sampleEnv ''Author'' nestedBogus \<noteq> Some (Inr q))"
proof -
  have nf: "List.find (\<lambda>c. fieldName c = ''bogus'') (columns publisherMeta) = None"
    by (simp add: publisherMeta_def nameColumn_def)
  have root: "rootScope sampleEnv ''Author'' nestedBogus =
      (authorMeta, JObj [(''publisher'', JObj [(''bogus'', JNum 1)]), (''age'', JNum 3)], JUndefined)"
    by (simp add: rootScope_def nestedBogus_def sampleEnv_def)
  have "''publisher'' \<in> set (clauseKeys
      (JObj [(''publisher'', JObj [(''bogus'', JNum 1)]), (''age'', JNum 3)]) JUndefined)"
    by (simp add: clauseKeys_def)
  from reaches.down [OF this child_publisher reaches.here]
  have r: "reaches sampleEnv (rootScope sampleEnv ''Author'' nestedBogus)
             (publisherMeta, JObj [(''bogus'', JNum 1)], JUndefined)"
    by (simp only: root)
  have k: "''bogus'' \<in> set (clauseKeys (JObj [(''bogus'', JNum 1)]) JUndefined)"
    by (simp add: clauseKeys_def)
  from unknown_field_aborts [OF nf, of "addClauses 0 sampleEnv" sampleEnv "''p0''"
      "JObj [(''bogus'', JNum 1)]" JUndefined sampleState "[]" "''Author''" nestedBogus] r k
  show ?thesis by blast
qed

text \<open>The same compilation, run: the error of the nested call ends it, and the key
  \<^verbatim>\<open>age\<close> after it is never visited.\<close>

lemma nested_unknown_field:
  "buildQuery 2 sampleEnv ''Author'' nestedBogus = Some (Inl (NotFound ''bogus''))"
  by code_simp

section \<open>Objects with several keys on a primitive column\<close>

lemma opToFn_None: "map_of opToFn k = None \<longleftrightarrow> k \<notin> set operators"
  by (simp add: opToFn_def operators_def) 

lemma opToFnGet_operator:
  "k \<in> set operators \<Longrightarrow> opToFnGet k = Some (Comparison (the (map_of opToFn k)))"
  using opToFn_None [of k] by (cases "map_of opToFn k") (simp_all add: opToFnGet_def)

lemma opToFnGet_other:
  "k \<notin> set operators \<Longrightarrow>
   opToFnGet k = (if k \<in> set objectPrototypeNames then Some (Inherited k) else None)"
  using opToFn_None [of k] by (simp add: opToFnGet_def)

lemma addPrimitiveClause_first_key:
  assumes "\<exists>op \<in> set operators. op \<in> set (map fst ((k, v) # rest))"
  shows "addPrimitiveClause q al column (JObj ((k, v) # rest)) =
           addPrimitiveOperator q al column (JStr k) v"
proof -
  from assms have "List.find (\<lambda>op. op \<in> set (objectKeys (JObj ((k, v) # rest)))) operators \<noteq> None"
    by (auto simp: find_None_iff)
  then show ?thesis
    by (simp add: addPrimitiveClause_def Let_def lookupProp_def)
qed

text \<open>A first key that is no operator but names a member of \<^verbatim>\<open>Object.prototype\<close>:
  \<^verbatim>\<open>opToFn[op]\<close> finds the inherited member, nothing is raised, and the member is passed to
  knex as the comparison.\<close>

lemma inherited_name_as_operator:
  assumes "v \<noteq> JNull" "v \<noteq> JUndefined" "k \<notin> set operators" "k \<in> set objectPrototypeNames"
  shows "addPrimitiveOperator q al column (JStr k) v =
           Inr (addWhere q (WhereOp (columnRef al column) (Inherited k) (mapToDb (serde column) v)))"
proof -
  from assms(3) have "k \<noteq> ''in''" by (auto simp: operators_def)
  with assms show ?thesis
    by (simp add: addPrimitiveOperator_def Let_def opToFnGet_other)
qed

lemma toString_as_operator:
  "addPrimitiveClause authorsQuery ''a0'' ageColumn (JObj [(''toString'', JNum 1), (''eq'', JNum 2)])
     = Inr (addWhere authorsQuery (WhereOp ''a0.age'' (Inherited ''toString'') (JNum 1)))"
  by code_simp

text \<open>
  Claim C10, as the source has it. For a clause on a primitive column that is an object
  with a fixed operator key among its keys, \<^verbatim>\<open>addPrimitiveClause\<close> applies
  \<^verbatim>\<open>addPrimitiveOperator\<close> to the first enumerated key and the value under it, and to
  nothing else of the object. When that value is neither \<^verbatim>\<open>null\<close> nor \<^verbatim>\<open>undefined\<close>:
  a first key that is a fixed operator key other than \<^verbatim>\<open>in\<close> adds exactly one comparison
  predicate for that operator; \<^verbatim>\<open>in\<close> adds one membership predicate when the value is
  an array (and is a \<^verbatim>\<open>TypeError\<close> otherwise); a first key that is neither a fixed
  operator key nor the name of a member of \<^verbatim>\<open>Object.prototype\<close> raises the
  invalid-operator error. When that value is \<^verbatim>\<open>null\<close> or \<^verbatim>\<open>undefined\<close>, the rule for
  null operands applies to the first key: \<^verbatim>\<open>eq\<close> adds "is null", \<^verbatim>\<open>ne\<close> adds "is not
  null", and every other first key raises the unsupported-operation error.
\<close>

theorem first_key_dispatch:
  assumes "\<exists>op \<in> set operators. op \<in> set (map fst ((k, v) # rest))"
  shows "addPrimitiveClause q al column (JObj ((k, v) # rest)) =
           addPrimitiveOperator q al column (JStr k) v
         \<and> (v \<noteq> JNull \<and> v \<noteq> JUndefined \<and> k \<in> set operators \<longrightarrow>
              addPrimitiveOperator q al column (JStr k) v =
                (if k = ''in'' then
                   (if isArray v
                    then Inr (addWhere q (WhereIn (columnRef al column)
                                            (map (mapToDb (serde column)) (arrayElems v))))
                    else Inl TypeError)
                 else Inr (addWhere q (WhereOp (columnRef al column)
                                         (Comparison (the (map_of opToFn k)))
                                         (mapToDb (serde column) v)))))
         \<and> (v \<noteq> JNull \<and> v \<noteq> JUndefined \<and> k \<notin> set operators
                \<and> k \<notin> set objectPrototypeNames \<longrightarrow>
              addPrimitiveOperator q al column (JStr k) v = Inl (InvalidOperator (JStr k)))
         \<and> (v = JNull \<or> v = JUndefined \<longrightarrow>
              addPrimitiveOperator q al column (JStr k) v =
                (if k = ''ne'' then Inr (addWhere q (WhereNotNull (columnRef al column)))
                 else if k = ''eq'' then Inr (addWhere q (WhereNull (columnRef al column)))
                 else Inl OnlyNeSupported))"
proof (intro conjI impI)
  show "addPrimitiveClause q al column (JObj ((k, v) # rest)) =
           addPrimitiveOperator q al column (JStr k) v"
    using assms by (rule addPrimitiveClause_first_key)
next
  assume "v \<noteq> JNull \<and> v \<noteq> JUndefined \<and> k \<in> set operators"
  then show "addPrimitiveOperator q al column (JStr k) v =
                (if k = ''in'' then
                   (if isArray v
                    then Inr (addWhere q (WhereIn (columnRef al column)
                                            (map (mapToDb (serde column)) (arrayElems v))))
                    else Inl TypeError)
                 else Inr (addWhere q (WhereOp (columnRef al column)
                                         (Comparison (the (map_of opToFn k)))
                                         (mapToDb (serde column) v))))"
    by (simp add: addPrimitiveOperator_def Let_def opToFnGet_operator)
next
  assume a: "v \<noteq> JNull \<and> v \<noteq> JUndefined \<and> k \<notin> set operators
                \<and> k \<notin> set objectPrototypeNames"
  then have "k \<noteq> ''in''" by (auto simp: operators_def)
  with a show "addPrimitiveOperator q al column (JStr k) v = Inl (InvalidOperator (JStr k))"
    by (simp add: addPrimitiveOperator_def Let_def opToFnGet_other)
next
  assume "v = JNull \<or> v = JUndefined"
  then show "addPrimitiveOperator q al column (JStr k) v =
                (if k = ''ne'' then Inr (addWhere q (WhereNotNull (columnRef al column)))
                 else if k = ''eq'' then Inr (addWhere q (WhereNull (columnRef al column)))
                 else Inl OnlyNeSupported)"
    by (auto simp: addPrimitiveOperator_def)
qed

theorem first_key_dispatch_witness:
  "addPrimitiveClause authorsQuery ''a0'' ageColumn (JObj [(''gt'', JNum 30), (''eq'', JNum 2)])
     = Inr (addWhere authorsQuery (WhereOp ''a0.age'' (Comparison ''>'') (JNum 30)))
   \<and> addPrimitiveClause authorsQuery ''a0'' ageColumn (JObj [(''foo'', JNum 1), (''eq'', JNum 2)])
     = Inl (InvalidOperator (JStr ''foo''))"
proof -
  have p: "\<exists>op \<in> set operators. op \<in> set (map fst [(k, v), (''eq'', JNum 2)])" for k and v :: jsval
    by (simp add: operators_def)
  have c: "columnRef ''a0'' ageColumn = ''a0.age''" "mapToDb (serde ageColumn) = (\<lambda>v. v)"
    by (simp_all add: columnRef_def ageColumn_def)
  have o: "''gt'' \<in> set operators" "''foo'' \<notin> set operators"
    "''foo'' \<notin> set objectPrototypeNames" "the (map_of opToFn ''gt'') = ''>''"
    by (simp_all add: operators_def opToFn_def objectPrototypeNames_def)
  from first_key_dispatch [OF p, of authorsQuery "''a0''" ageColumn "''gt''" "JNum 30"]
    first_key_dispatch [OF p, of authorsQuery "''a0''" ageColumn "''foo''" "JNum 1"]
  show ?thesis by (simp add: c o)
qed

text \<open>The first key is the operator \<^verbatim>\<open>gt\<close> and no predicate is added; the first key is no
  operator and the error is not the invalid-operator error.\<close>

theorem first_key_null_counterexample:
  "addPrimitiveClause authorsQuery ''a0'' ageColumn (JObj [(''gt'', JNull), (''eq'', JNum 2)])
     = Inl OnlyNeSupported
   \<and> addPrimitiveClause authorsQuery ''a0'' ageColumn (JObj [(''foo'', JNull), (''eq'', JNum 2)])
     = Inl OnlyNeSupported"
  by code_simp

section \<open>Aliases of joined tables\<close>

lemma getAlias_eq:
  "getAlias als name =
     (abbreviationOf name @ showNat (case als (abbreviationOf name) of None \<Rightarrow> 0 | Some i \<Rightarrow> i),
      als(abbreviationOf name \<mapsto> Suc (case als (abbreviationOf name) of None \<Rightarrow> 0 | Some i \<Rightarrow> i)))"
  by (simp add: getAlias_def Let_def)

lemma digit_isDigit: "d < 10 \<Longrightarrow> isDigit (digit d)"
proof -
  assume "d < 10"
  then have "d \<in> {0,1,2,3,4,5,6,7,8,9}" by auto
  then show ?thesis by (auto simp: isDigit_def digit_def)
qed

lemma digit_inj: "a < 10 \<Longrightarrow> b < 10 \<Longrightarrow> digit a = digit b \<Longrightarrow> a = b"
proof -
  assume "a < 10" "b < 10" and e: "digit a = digit b"
  then have "a \<in> {0,1,2,3,4,5,6,7,8,9}" "b \<in> {0,1,2,3,4,5,6,7,8,9}" by auto
  with e show ?thesis by (auto simp: digit_def)
qed

lemma showNat_digits: "\<forall>c \<in> set (showNat n). isDigit c"
proof (induction n rule: showNat.induct)
  case (1 n)
  show ?case
  proof (cases "n < 10")
    case True
    then show ?thesis by (subst showNat.simps) (simp add: digit_isDigit)
  next
    case False
    with 1 show ?thesis by (subst showNat.simps) (simp add: digit_isDigit)
  qed
qed

lemma showNat_nonempty: "showNat n \<noteq> []"
  by (subst showNat.simps) simp

lemma showNat_inj: "showNat n = showNat m \<Longrightarrow> n = m"
proof (induction n arbitrary: m rule: showNat.induct)
  case (1 n)
  show ?case
  proof (cases "n < 10")
    case n: True
    show ?thesis
    proof (cases "m < 10")
      case True
      with n "1.prems" show ?thesis
        by (simp add: showNat.simps [of n] showNat.simps [of m] digit_inj)
    next
      case False
      with n "1.prems" showNat_nonempty [of "m div 10"] show ?thesis
        by (simp add: showNat.simps [of n] showNat.simps [of m] Cons_eq_append_conv)
    qed
  next
    case n: False
    show ?thesis
    proof (cases "m < 10")
      case True
      with n "1.prems" showNat_nonempty [of "n div 10"] show ?thesis
        by (simp add: showNat.simps [of n] showNat.simps [of m] append_eq_Cons_conv)
    next
      case False
      with n "1.prems" have "showNat (n div 10) = showNat (m div 10)" "digit (n mod 10) = digit (m mod 10)"
        by (simp_all add: showNat.simps [of n] showNat.simps [of m])
      with "1.IH" [OF n] have "n div 10 = m div 10" "n mod 10 = m mod 10"
        by (auto intro: digit_inj)
      then show ?thesis by (metis div_mult_mod_eq)
    qed
  qed
qed


lemma digit_suffix:
  assumes "okAbbrev a" and "\<forall>c \<in> set s. isDigit c"
  shows "takeWhile isDigit (rev (a @ s)) = rev s"
proof -
  from assms(1) have "takeWhile isDigit (rev a) = []"
    by (auto simp: okAbbrev_def takeWhile_eq_Nil_iff hd_rev)
  moreover have "takeWhile isDigit (rev s @ rev a) = rev s @ takeWhile isDigit (rev a)"
    by (rule takeWhile_append2) (use assms(2) in auto)
  ultimately show ?thesis by simp
qed

lemma alias_inj:
  assumes "okAbbrev a" "okAbbrev b" "a @ showNat i = b @ showNat j"
  shows "a = b \<and> i = j"
proof -
  from digit_suffix [OF assms(1) showNat_digits, of i] digit_suffix [OF assms(2) showNat_digits, of j]
    assms(3)
  have "showNat i = showNat j" by (metis rev_is_rev_conv)
  with assms(3) showNat_inj show ?thesis by auto
qed

lemma wellAliased_frame:
  "wellAliased base st \<Longrightarrow> joins q = joins (query st) \<Longrightarrow> wellAliased base (st\<lparr>query := q\<rparr>)"
  by (simp add: wellAliased_def joinAliases_def)

lemma wellAliased_join:
  assumes inv: "wellAliased base st"
    and q: "joins q = joins (query st)"
    and ok: "okAbbrev (abbreviationOf t)"
    and ga: "getAlias (aliases st) t = (oa, als)"
  shows "wellAliased base \<lparr>query = innerJoin q x y (oa @ ''.id''), aliases = als\<rparr>"
proof -
  define a where "a = abbreviationOf t"
  define i where "i = (case aliases st a of None \<Rightarrow> 0 | Some i \<Rightarrow> i)"
  from ga have oa: "oa = a @ showNat i" and als: "als = (aliases st)(a \<mapsto> Suc i)"
    by (simp_all add: getAlias_def Let_def a_def i_def)
  let ?old = "base @ joinAliases (query st)"
  have new: "joinAliases (innerJoin q x y (oa @ ''.id'')) = joinAliases (query st) @ [oa @ ''.id'']"
    by (simp add: joinAliases_def innerJoin_def q)
  have fresh: "oa @ ''.id'' \<notin> set ?old"
  proof
    assume "oa @ ''.id'' \<in> set ?old"
    with inv obtain b j n where b: "okAbbrev b" "oa @ ''.id'' = b @ showNat j @ ''.id''"
      "aliases st b = Some n" "j < n"
      unfolding wellAliased_def by blast
    from b(2) have "a @ showNat i = b @ showNat j" by (simp add: oa)
    from alias_inj [OF ok [folded a_def] b(1) this] b(3,4) show False
      by (auto simp: i_def)
  qed
  have props: "\<exists>b j n. okAbbrev b \<and> c = b @ showNat j @ ''.id'' \<and> als b = Some n \<and> j < n"
    if "c \<in> set (?old @ [oa @ ''.id''])" for c
  proof (cases "c = oa @ ''.id''")
    case True
    then show ?thesis using ok by (auto simp: oa als a_def intro!: exI [of _ a] exI [of _ i])
  next
    case False
    with that have "c \<in> set ?old" by auto
    with inv obtain b j n where b: "okAbbrev b" "c = b @ showNat j @ ''.id''"
      "aliases st b = Some n" "j < n"
      unfolding wellAliased_def by blast
    show ?thesis
    proof (cases "b = a")
      case True
      with b have "j < Suc i" by (simp add: i_def)
      with b True show ?thesis by (auto simp: als)
    next
      case False
      with b show ?thesis by (auto simp: als)
    qed
  qed
  from inv fresh have "distinct (?old @ [oa @ ''.id''])"
    by (simp add: wellAliased_def)
  with props show ?thesis
    unfolding wellAliased_def by (simp add: new)
qed


lemma addForeignKeyClause_joins:
  "addForeignKeyClause q a c cl = Inr (b, q') \<Longrightarrow> joins q' = joins q"
  by (auto simp: addForeignKeyClause_def Let_def addWhere_def split: if_splits)

lemma addPrimitiveOperator_joins:
  "addPrimitiveOperator q a c op v = Inr q' \<Longrightarrow> joins q' = joins q"
  by (auto simp: addPrimitiveOperator_def Let_def addWhere_def split: if_splits option.splits)

lemma addPrimitiveClause_joins:
  "addPrimitiveClause q a c cl = Inr q' \<Longrightarrow> joins q' = joins q"
  unfolding addPrimitiveClause_def Let_def
  by (auto simp: addWhere_def split: if_splits dest: addPrimitiveOperator_joins)

lemma addClausesKey_wellAliased:
  assumes rec: "\<And>m a w od s s'. wellAliased base s \<Longrightarrow> recur m a w od s = Some (Inr s') \<Longrightarrow>
                  wellAliased base s'"
    and ok: "okCatalog e"
    and inv: "wellAliased base st"
    and run: "addClausesKey recur e meta al whr ord key st = Some (Inr st')"
  shows "wellAliased base st'"
proof -
  from run obtain column where col: "List.find (\<lambda>c. fieldName c = key) (columns meta) = Some column"
    by (auto simp: addClausesKey_def split: option.splits)
  from run col obtain hasClause where hc: "andHas whr key = Inr hasClause"
    by (auto simp: addClausesKey_def Let_def split: sum.splits)
  show ?thesis
  proof (cases "isForeignKeySerde (serde column)")
    case True
    let ?r = "if hasClause then addForeignKeyClause (query st) al column (andGet whr key)
              else Inr (False, query st)"
    from run col hc True obtain needs q where r: "?r = Inr (needs, q)"
      by (auto simp: addClausesKey_def Let_def split: sum.splits)
    then have q: "joins q = joins (query st)"
      by (auto split: if_splits dest: addForeignKeyClause_joins)
    show ?thesis
    proof (cases "needs \<or> truthy (andGet ord key)")
      case j: True
      let ?om = "getMetadata e (otherMeta (serde column))"
      obtain oa als where ga: "getAlias (aliases st) (tableName ?om) = (oa, als)"
        by (cases "getAlias (aliases st) (tableName ?om)")
      from ok have "okAbbrev (abbreviationOf (tableName ?om))"
        by (simp add: okCatalog_def)
      from wellAliased_join [OF inv q this ga]
      have s: "wellAliased base \<lparr>query = innerJoin q (tableName ?om @ '' AS '' @ oa)
                  (columnRef al column) (oa @ ''.id''), aliases = als\<rparr>" .
      from run col hc True r j ga
      have "recur ?om oa (if needs then andGet whr key else JUndefined)
              (if truthy (andGet ord key) then andGet ord key else JUndefined)
              \<lparr>query = innerJoin q (tableName ?om @ '' AS '' @ oa)
                  (columnRef al column) (oa @ ''.id''), aliases = als\<rparr> = Some (Inr st')"
        by (simp add: addClausesKey_def Let_def)
      from rec [OF s this] show ?thesis .
    next
      case False
      with run col hc True r have "st' = st\<lparr>query := q\<rparr>"
        by (simp add: addClausesKey_def Let_def)
      with wellAliased_frame [OF inv q] show ?thesis by simp
    qed
  next
    case False
    let ?r = "if hasClause then addPrimitiveClause (query st) al column (andGet whr key)
              else Inr (query st)"
    from run col hc False obtain q where r: "?r = Inr q"
      by (auto simp: addClausesKey_def Let_def split: sum.splits)
    then have q: "joins q = joins (query st)"
      by (auto split: if_splits dest: addPrimitiveClause_joins)
    let ?q = "if truthy (andGet ord key) then orderBy q (columnRef al column) (andGet ord key) else q"
    from q have q': "joins ?q = joins (query st)" by (simp add: orderBy_def)
    from run col hc False r have "st' = st\<lparr>query := ?q\<rparr>"
      by (simp add: addClausesKey_def Let_def)
    with wellAliased_frame [OF inv q'] show ?thesis by simp
  qed
qed

lemma forEach_wellAliased:
  assumes "\<And>k s s'. wellAliased base s \<Longrightarrow> f k s = Some (Inr s') \<Longrightarrow> wellAliased base s'"
  shows "wellAliased base st \<Longrightarrow> forEach f ks st = Some (Inr st') \<Longrightarrow> wellAliased base st'"
proof (induction ks arbitrary: st)
  case Nil
  then show ?case by simp
next
  case (Cons k ks)
  from Cons.prems(2) obtain s where s: "f k st = Some (Inr s)" and rest: "forEach f ks s = Some (Inr st')"
    by (auto split: option.splits sum.splits)
  from Cons.IH [OF assms [OF Cons.prems(1) s] rest] show ?case .
qed

lemma addClauses_wellAliased:
  assumes "okCatalog e"
  shows "wellAliased base st \<Longrightarrow> addClauses n e meta al whr ord st = Some (Inr st') \<Longrightarrow>
         wellAliased base st'"
proof (induction n arbitrary: meta al whr ord st st')
  case 0
  then show ?case by simp
next
  case (Suc n)
  from Suc.prems(2)
  have run: "forEach (addClausesKey (addClauses n e) e meta al whr ord) (clauseKeys whr ord) st
               = Some (Inr st')" by simp
  show ?case
  proof (rule forEach_wellAliased [OF _ Suc.prems(1) run])
    fix k s s'
    assume s: "wellAliased base s"
      and k: "addClausesKey (addClauses n e) e meta al whr ord k s = Some (Inr s')"
    show "wellAliased base s'"
    proof (rule addClausesKey_wellAliased [where recur = "addClauses n e"])
      show "wellAliased base t \<Longrightarrow> addClauses n e m a w od t = Some (Inr t') \<Longrightarrow> wellAliased base t'"
        for m a w od t t' by (rule Suc.IH)
      show "okCatalog e" by (rule assms)
      show "wellAliased base s" by (rule s)
      show "addClausesKey (addClauses n e) e meta al whr ord k s = Some (Inr s')" by (rule k)
    qed
  qed
qed

lemma aliases_distinct:
  assumes ok: "okCatalog e" and run: "buildQuery n e ty flt = Some (Inr q)"
  shows "distinct ((abbreviationOf (tableName (getMetadata e ty)) @ ''0.id'') # joinAliases q)"
proof -
  let ?a = "abbreviationOf (tableName (getMetadata e ty))"
  let ?al = "?a @ ''0''"
  let ?st0 = "\<lparr>query = fromTbl (knexSelect (?al @ ''.*'')) (tableName (getMetadata e ty) @ '' AS '' @ ?al),
               aliases = [?a \<mapsto> 1]\<rparr>"
  have ga: "getAlias Map.empty (tableName (getMetadata e ty)) = (?al, [?a \<mapsto> 1])"
    by (simp add: getAlias_def showNat_0 Let_def)
  from run obtain st where
    st: "addClauses n e (getMetadata e ty) ?al (JObj (fWhere flt))
           (case fOrderBy flt of None \<Rightarrow> JUndefined | Some kvs \<Rightarrow> JObj kvs) ?st0 = Some (Inr st)"
    by (auto simp: buildQuery_def Let_def ga split: option.splits sum.splits)
  from ok have "okAbbrev ?a" by (simp add: okCatalog_def)
  then have "wellAliased [?a @ ''0.id''] ?st0"
    by (auto simp: wellAliased_def joinAliases_def fromTbl_def knexSelect_def showNat_0
        intro!: exI [of _ ?a] exI [of _ "0::nat"])
  from addClauses_wellAliased [OF ok this st]
  have d: "distinct ((?a @ ''0.id'') # joinAliases (query st))"
    by (simp add: wellAliased_def)
  from run st have "joins q = joins (query st)"
    by (auto simp: buildQuery_def Let_def ga orderBy_def limit_def offset_def split: if_splits)
  with d show ?thesis by (simp add: joinAliases_def)
qed

text \<open>The sample schema has no abbreviation that ends in a digit, and the aliases of the
  sample query are distinct.\<close>

lemma sampleEnv_ok: "okCatalog sampleEnv"
proof -
  have "abbreviationOf ''authors'' = ''a''" "abbreviationOf ''publishers'' = ''p''"
    by code_simp+
  then show ?thesis
    by (simp add: okCatalog_def sampleEnv_def authorMeta_def publisherMeta_def okAbbrev_def
        isDigit_def)
qed

lemma sample_aliases_distinct: "distinct (''a0.id'' # joinAliases sampleQuery)"
proof -
  have "abbreviationOf (tableName (getMetadata sampleEnv ''Author'')) = ''a''"
    by code_simp
  with aliases_distinct [OF sampleEnv_ok sample_run] show ?thesis by simp
qed

text \<open>
  Claim C2. \<^verbatim>\<open>getAlias\<close> returns the abbreviation followed by the counter of that
  abbreviation and increments the counter (\<open>getAlias_eq\<close>), and the aliases of one
  compilation are distinct when no abbreviation of the catalog ends in a digit
  (\<open>aliases_distinct\<close>). Without that they are not always distinct: the abbreviation
  \<^verbatim>\<open>a\<close> with counter 10 and the abbreviation \<^verbatim>\<open>a1\<close> with counter 0 are both \<^verbatim>\<open>a10\<close>.
  The filter on the form of the tenth ancestor of an account joins \<^verbatim>\<open>accounts\<close> ten
  times, under \<^verbatim>\<open>a1\<close> to \<^verbatim>\<open>a10\<close>, and then \<^verbatim>\<open>audit_1099s\<close> under \<^verbatim>\<open>a10\<close> again.
\<close>

theorem alias_collision:
  "buildQuery 12 ledgerEnv ''Account'' tenthAncestor = Some (Inr tenthAncestorQuery)
   \<and> (''accounts AS a10'', ''a9.parent_id'', ''a10.id'') \<in> set (joins tenthAncestorQuery)
   \<and> (''audit_1099s AS a10'', ''a10.form_id'', ''a10.id'') \<in> set (joins tenthAncestorQuery)"
proof -
  have "buildQuery 12 ledgerEnv ''Account'' tenthAncestor = Some (Inr tenthAncestorQuery)"
    by code_simp
  then show ?thesis by (simp add: tenthAncestorQuery_def)
qed

end
